theory Spec2Isabelle
  imports Complex_Main
begin

section \<open>Python values\<close>

text \<open>
  The module \<^verbatim>\<open>bybit.py\<close> handles two kinds of Python values. Arguments of the endpoint
  functions are strings, integers and booleans (the module constants and what argparse
  produces); they are formatted into URLs by f-strings. Responses are whatever
  \<^verbatim>\<open>requests.get(url).json()\<close> parses: JSON data. A Python float is modelled by a real
  number, a dict by an association list in insertion order.
\<close>

datatype arg = AStr string | AInt int | ABool bool

datatype pyval = PNone | PBool bool | PInt int | PFloat real | PStr string
  | PList "pyval list" | PDict "(string \<times> pyval) list"

datatype exn =
    KeyError string
  | TypeError string
  | ConnectionError
  | JSONDecodeError
  | FileNotFoundError string
  | FileExistsError string

definition digit_char :: "nat \<Rightarrow> char" where
  "digit_char d = ''0123456789'' ! d"

fun str_nat :: "nat \<Rightarrow> string" where
  "str_nat n = (if n < 10 then [digit_char n] else str_nat (n div 10) @ [digit_char (n mod 10)])"

declare str_nat.simps [simp del]

definition str_int :: "int \<Rightarrow> string" where
  "str_int i = (if i < 0 then CHR ''-'' # str_nat (nat (- i)) else str_nat (nat i))"

text \<open>\<^verbatim>\<open>f'{x}'\<close>: the \<^verbatim>\<open>str\<close> of an argument.\<close>

fun py_str :: "arg \<Rightarrow> string" where
  "py_str (AStr s) = s"
| "py_str (AInt i) = str_int i"
| "py_str (ABool b) = (if b then ''True'' else ''False'')"

text \<open>Truth value of an argument, as \<^verbatim>\<open>if debug:\<close> tests it.\<close>

fun py_truthy :: "arg \<Rightarrow> bool" where
  "py_truthy (AStr s) = (s \<noteq> [])"
| "py_truthy (AInt i) = (i \<noteq> 0)"
| "py_truthy (ABool b) = b"

text \<open>\<^verbatim>\<open>v == k\<close> for an integer literal \<open>k\<close>: numbers compare by value, and a bool is a number.\<close>

fun py_eq_int :: "pyval \<Rightarrow> int \<Rightarrow> bool" where
  "py_eq_int (PInt n) k = (n = k)"
| "py_eq_int (PFloat x) k = (x = real_of_int k)"
| "py_eq_int (PBool b) k = ((if b then 1 else 0) = k)"
| "py_eq_int _ k = False"

text \<open>\<^verbatim>\<open>v[key]\<close> for a string key: only a dict has one.\<close>

fun subscript :: "pyval \<Rightarrow> string \<Rightarrow> exn + pyval" where
  "subscript (PDict d) k = (case map_of d k of None \<Rightarrow> Inl (KeyError k) | Some v \<Rightarrow> Inr v)"
| "subscript _ k = Inl (TypeError ''subscript'')"

section \<open>The world outside the module\<close>

text \<open>
  What an endpoint function can reach: the exchange and the logger. The reply to the
  \<open>n\<close>-th GET of the run is \<open>replies n url\<close>; \<open>requests\<close> lists the URLs requested so far
  and \<open>logged\<close> the messages given to \<^verbatim>\<open>logger.info\<close>.
\<close>

datatype http_reply = Transport_failure | Not_json | Json pyval

record remote =
  replies :: "nat \<Rightarrow> string \<Rightarrow> http_reply"
  requests :: "string list"
  logged :: "string list"

definition logger_info :: "string \<Rightarrow> remote \<Rightarrow> remote" where
  "logger_info msg r = r\<lparr>logged := logged r @ [msg]\<rparr>"

text \<open>\<^verbatim>\<open>requests.get(url).json()\<close>: a transport failure and a body that is not JSON raise.\<close>

definition http_get_json :: "string \<Rightarrow> remote \<Rightarrow> (exn + pyval) \<times> remote" where
  "http_get_json url r =
     (let r' = r\<lparr>requests := requests r @ [url]\<rparr> in
      case replies r (length (requests r)) url of
        Transport_failure \<Rightarrow> (Inl ConnectionError, r')
      | Not_json \<Rightarrow> (Inl JSONDecodeError, r')
      | Json v \<Rightarrow> (Inr v, r'))"

section \<open>The HTTP client wrapper and the endpoint functions\<close>

definition DEBUG :: arg where "DEBUG = ABool False"
definition API_LINK :: string where "API_LINK = ''https://api-testnet.bybit.com/v2/public/''"
definition PAIR :: arg where "PAIR = AStr ''BTCUSD''"
definition LIMIT :: arg where "LIMIT = AInt 500"
definition INTERVAL :: arg where "INTERVAL = AStr ''1''"
definition SINCE :: arg where "SINCE = AStr ''1581231260''"

definition make_request :: "string \<Rightarrow> arg \<Rightarrow> remote \<Rightarrow> (exn + pyval) \<times> remote" where
  "make_request url debug r =
     (let r1 = (if py_truthy debug then logger_info (''GET '' @ url) r else r) in
      case http_get_json url r1 of
        (Inl e, r2) \<Rightarrow> (Inl e, r2)
      | (Inr resp, r2) \<Rightarrow>
          (case subscript resp ''ret_code'' of
             Inl e \<Rightarrow> (Inl e, r2)
           | Inr code \<Rightarrow>
               if py_eq_int code 0 then (subscript resp ''result'', r2)
               else (subscript resp ''ret_msg'', r2)))"

definition get_order_book :: "arg \<Rightarrow> arg \<Rightarrow> remote \<Rightarrow> (exn + pyval) \<times> remote" where
  "get_order_book pair debug =
     make_request (API_LINK @ ''orderBook/L2?symbol='' @ py_str pair) debug"

definition get_trades :: "arg \<Rightarrow> arg \<Rightarrow> arg \<Rightarrow> remote \<Rightarrow> (exn + pyval) \<times> remote" where
  "get_trades pair limit debug =
     make_request
       (API_LINK @ ''trading-records?symbol='' @ py_str pair @ ''&limit='' @ py_str limit) debug"

definition get_candles :: "arg \<Rightarrow> arg \<Rightarrow> arg \<Rightarrow> arg \<Rightarrow> remote \<Rightarrow> (exn + pyval) \<times> remote" where
  "get_candles pair interval since debug =
     make_request
       (API_LINK @ ''kline/list?symbol='' @ py_str pair @ ''&interval='' @ py_str interval
          @ ''&from='' @ py_str since) debug"

definition get_ticker :: "arg \<Rightarrow> arg \<Rightarrow> arg \<Rightarrow> arg \<Rightarrow> remote \<Rightarrow> (exn + pyval) \<times> remote" where
  "get_ticker pair interval since debug =
     make_request
       (API_LINK @ ''kline/list?symbol='' @ py_str pair @ ''&interval='' @ py_str interval
          @ ''&from='' @ py_str since @ ''&limit=1'') debug"

text \<open>
  A call with keyword arguments only, \<^verbatim>\<open>f(**kw)\<close>, of a function whose parameters are
  \<open>names\<close>, all with defaults: a keyword that is no parameter raises TypeError before the
  body runs; the body reads each parameter from the keywords or takes its default.
\<close>

type_synonym kwargs = "(string \<times> arg) list"

type_synonym endpoint = "kwargs \<Rightarrow> remote \<Rightarrow> (exn + pyval) \<times> remote"

definition call_keywords ::
  "string list \<Rightarrow> ((string \<Rightarrow> arg \<Rightarrow> arg) \<Rightarrow> remote \<Rightarrow> (exn + pyval) \<times> remote) \<Rightarrow> endpoint" where
  "call_keywords names body kw r =
     (case find (\<lambda>k. k \<notin> set names) (map fst kw) of
        Some k \<Rightarrow> (Inl (TypeError (''unexpected keyword argument '' @ k)), r)
      | None \<Rightarrow> body (\<lambda>name dflt. case map_of kw name of None \<Rightarrow> dflt | Some v \<Rightarrow> v) r)"

definition get_order_book_kw :: endpoint where
  "get_order_book_kw =
     call_keywords [''pair'', ''debug'']
       (\<lambda>a. get_order_book (a ''pair'' PAIR) (a ''debug'' DEBUG))"

definition get_trades_kw :: endpoint where
  "get_trades_kw =
     call_keywords [''pair'', ''limit'', ''debug'']
       (\<lambda>a. get_trades (a ''pair'' PAIR) (a ''limit'' LIMIT) (a ''debug'' DEBUG))"

definition get_candles_kw :: endpoint where
  "get_candles_kw =
     call_keywords [''pair'', ''interval'', ''since'', ''debug'']
       (\<lambda>a. get_candles (a ''pair'' PAIR) (a ''interval'' INTERVAL) (a ''since'' SINCE)
          (a ''debug'' DEBUG))"

definition get_ticker_kw :: endpoint where
  "get_ticker_kw =
     call_keywords [''pair'', ''interval'', ''since'', ''debug'']
       (\<lambda>a. get_ticker (a ''pair'' PAIR) (a ''interval'' INTERVAL) (a ''since'' SINCE)
          (a ''debug'' DEBUG))"

definition BASE_SAVE_DIR :: string where "BASE_SAVE_DIR = ''../../datasets/''"

text \<open>The entries for \<^verbatim>\<open>'candles'\<close> and \<^verbatim>\<open>'spread'\<close> are commented out in the source.\<close>

definition FN_MAPPING :: "string \<rightharpoonup> endpoint" where
  "FN_MAPPING =
     map_of [(''order_book'', get_order_book_kw),
             (''trades'', get_trades_kw),
             (''ticker'', get_ticker_kw)]"

section \<open>Clock and file system\<close>

text \<open>
  The collector also reads the clock and writes files. \<open>clock n\<close> is what the \<open>n\<close>-th call
  of \<^verbatim>\<open>time.time()\<close> returns and \<open>ticks\<close> counts the calls made. \<open>dirs\<close> holds the paths of
  the existing directories as the program spells them, \<open>files\<close> the contents of the regular
  files. A file's content is the sequence of pieces written to it: the text \<^verbatim>\<open>json.dumps\<close>
  makes of a value (one line: with its defaults \<^verbatim>\<open>json.dumps\<close> escapes every newline), or a
  literal string. Clock readings are real numbers, for Python's floats.
\<close>

datatype piece = Json_text pyval | Raw string

record world =
  clock :: "nat \<Rightarrow> real"
  ticks :: nat
  ext :: remote
  dirs :: "string set"
  files :: "string \<rightharpoonup> piece list"

definition time_time :: "world \<Rightarrow> real \<times> world" where
  "time_time w = (clock w (ticks w), w\<lparr>ticks := Suc (ticks w)\<rparr>)"

text \<open>\<^verbatim>\<open>os.path.join\<close> (POSIX): an absolute component discards what precedes it.\<close>

definition join_step :: "string \<Rightarrow> string \<Rightarrow> string" where
  "join_step path b =
     (if b \<noteq> [] \<and> hd b = CHR ''/'' then b
      else if path = [] \<or> last path = CHR ''/'' then path @ b
      else path @ ''/'' @ b)"

definition path_join :: "string \<Rightarrow> string list \<Rightarrow> string" where
  "path_join a ps = foldl join_step a ps"

text \<open>\<^verbatim>\<open>os.path.dirname\<close> (POSIX): up to the last slash, trailing slashes stripped unless the
  head is slashes only.\<close>

definition dirname :: "string \<Rightarrow> string" where
  "dirname p =
     (let head = rev (dropWhile (\<lambda>c. c \<noteq> CHR ''/'') (rev p)) in
      if head \<noteq> [] \<and> \<not> list_all (\<lambda>c. c = CHR ''/'') head
      then rev (dropWhile (\<lambda>c. c = CHR ''/'') (rev head))
      else head)"

text \<open>\<^verbatim>\<open>os.makedirs(p, exist_ok=True)\<close>: an existing directory is no error, a regular file
  at the path is.\<close>

definition makedirs :: "string \<Rightarrow> world \<Rightarrow> (exn + unit) \<times> world" where
  "makedirs p w =
     (if files w p \<noteq> None then (Inl (FileExistsError p), w)
      else (Inr (), w\<lparr>dirs := insert p (dirs w)\<rparr>))"

text \<open>
  \<^verbatim>\<open>open(path, 'w')\<close>: creates the file or truncates it; the directory must exist. A
  directory in the file's place, permissions and a full disk are outside the model.
\<close>

definition open_w :: "string \<Rightarrow> world \<Rightarrow> (exn + unit) \<times> world" where
  "open_w path w =
     (if dirname path \<in> dirs w then (Inr (), w\<lparr>files := (files w)(path \<mapsto> [])\<rparr>)
      else (Inl (FileNotFoundError path), w))"

definition file_write :: "string \<Rightarrow> piece \<Rightarrow> world \<Rightarrow> world" where
  "file_write path p w =
     w\<lparr>files := (files w)(path \<mapsto> (case files w path of None \<Rightarrow> [] | Some c \<Rightarrow> c) @ [p])\<rparr>"

section \<open>The collector loop\<close>

text \<open>
  \<^verbatim>\<open>FN_MAPPING[info_type](product_id=pair, **kwargs)\<close>: the subscription first (KeyError),
  then the call; a keyword given twice raises TypeError. The table is a parameter here
  and \<open>FN_MAPPING\<close> in \<open>store_info\<close>.
\<close>

definition call_endpoint ::
  "(string \<rightharpoonup> endpoint) \<Rightarrow> string \<Rightarrow> arg \<Rightarrow> kwargs \<Rightarrow> remote \<Rightarrow> (exn + pyval) \<times> remote" where
  "call_endpoint tbl info_type pair kwargs r =
     (case tbl info_type of
        None \<Rightarrow> (Inl (KeyError info_type), r)
      | Some f \<Rightarrow>
          if ''product_id'' \<in> set (map fst kwargs)
          then (Inl (TypeError ''multiple values for keyword argument product_id''), r)
          else f ((''product_id'', pair) # kwargs) r)"

text \<open>
  The \<^verbatim>\<open>while\<close> loop of \<open>store_info\<close>. Each turn reads the clock for the test and, in the
  dict display, again for \<^verbatim>\<open>'ts'\<close> before the endpoint is looked up and called. An exception
  leaves the loop with the file as it is. A loop that never ends has the value \<open>None\<close>.
\<close>

partial_function (option) collect_loop ::
  "(string \<rightharpoonup> endpoint) \<Rightarrow> string \<Rightarrow> arg \<Rightarrow> real \<Rightarrow> string \<Rightarrow> kwargs \<Rightarrow> real \<Rightarrow> world
     \<Rightarrow> ((exn + unit) \<times> world) option" where
  "collect_loop tbl path pair collection_time info_type kwargs start w =
     (case time_time w of (now, w1) \<Rightarrow>
        if now - start < collection_time then
          (case time_time w1 of (ts, w2) \<Rightarrow>
             (case call_endpoint tbl info_type pair kwargs (ext w2) of
                (Inl e, r) \<Rightarrow> Some (Inl e, w2\<lparr>ext := r\<rparr>)
              | (Inr response, r) \<Rightarrow>
                  collect_loop tbl path pair collection_time info_type kwargs start
                    (file_write path (Raw [CHR 0x0A])
                       (file_write path
                          (Json_text (PDict [(''ts'', PFloat ts), (''response'', response)]))
                          (w2\<lparr>ext := r\<rparr>)))))
        else Some (Inr (), w1))"

text \<open>The file a collector writes: \<^verbatim>\<open>join(save_dir, info_type) + '.txt'\<close>.\<close>

definition output_file :: "string \<Rightarrow> string \<Rightarrow> string" where
  "output_file save_dir info_type = path_join save_dir [info_type] @ ''.txt''"

definition log_world :: "string \<Rightarrow> world \<Rightarrow> world" where
  "log_world msg w = w\<lparr>ext := logger_info msg (ext w)\<rparr>"

definition store_info_with ::
  "(string \<rightharpoonup> endpoint) \<Rightarrow> string \<Rightarrow> arg \<Rightarrow> real \<Rightarrow> string \<Rightarrow> kwargs \<Rightarrow> world
     \<Rightarrow> ((exn + unit) \<times> world) option" where
  "store_info_with tbl save_dir pair collection_time info_type kwargs w =
     (let w0 = log_world (''Collecting '' @ info_type @ '' data for '' @ py_str pair) w in
      case open_w (output_file save_dir info_type) w0 of
        (Inl e, w1) \<Rightarrow> Some (Inl e, w1)
      | (Inr u, w1) \<Rightarrow>
          (case time_time w1 of (start, w2) \<Rightarrow>
             (case collect_loop tbl (output_file save_dir info_type) pair
                     collection_time info_type kwargs start w2 of
                None \<Rightarrow> None
              | Some (Inl e, w3) \<Rightarrow> Some (Inl e, w3)
              | Some (Inr u', w3) \<Rightarrow>
                  Some (Inr (),
                    log_world (''Finished collecting '' @ info_type @ '' data for '' @ py_str pair)
                      w3))))"

definition store_info ::
  "string \<Rightarrow> arg \<Rightarrow> real \<Rightarrow> string \<Rightarrow> kwargs \<Rightarrow> world \<Rightarrow> ((exn + unit) \<times> world) option" where
  "store_info = store_info_with FN_MAPPING"

section \<open>The command-line driver\<close>

record args =
  args_time :: int
  args_pair :: "string option"
  args_order_book :: int
  args_depth :: int
  args_candles :: int
  args_granularity :: int
  args_spreads :: int
  args_trades :: int
  args_ticker :: int

text \<open>A \<^verbatim>\<open>threading.Thread(target=store_info, args=(...), kwargs=...)\<close>.\<close>

record thread =
  th_save_dir :: string
  th_pair :: arg
  th_collection_time :: real
  th_info_type :: string
  th_kwargs :: kwargs

definition new_thread :: "string \<Rightarrow> string \<Rightarrow> int \<Rightarrow> string \<Rightarrow> kwargs \<Rightarrow> thread" where
  "new_thread save_dir pair collection_time info_type kw =
     \<lparr>th_save_dir = save_dir, th_pair = AStr pair,
      th_collection_time = real_of_int collection_time,
      th_info_type = info_type, th_kwargs = kw\<rparr>"

text \<open>What a started thread runs.\<close>

definition thread_run :: "thread \<Rightarrow> world \<Rightarrow> ((exn + unit) \<times> world) option" where
  "thread_run t =
     store_info (th_save_dir t) (th_pair t) (th_collection_time t) (th_info_type t) (th_kwargs t)"

text \<open>
  \<open>main\<close> returns the threads it has started, in the order of the source, and does not
  run them. Without \<^verbatim>\<open>--pair\<close> the pair is \<^verbatim>\<open>None\<close> and \<^verbatim>\<open>join\<close> raises.
\<close>

definition main :: "args \<Rightarrow> world \<Rightarrow> (exn + thread list) \<times> world" where
  "main a w =
     (case args_pair a of
        None \<Rightarrow> (Inl (TypeError ''join''), w)
      | Some pair \<Rightarrow>
          (let save_dir = path_join BASE_SAVE_DIR [pair, ''kraken''] in
           case makedirs save_dir w of
             (Inl e, w1) \<Rightarrow> (Inl e, w1)
           | (Inr u, w1) \<Rightarrow>
               (Inr
                 ((if args_ticker a \<noteq> 0
                   then [new_thread save_dir pair (args_time a) ''ticker'' []] else [])
                  @ (if args_order_book a \<noteq> 0
                     then [new_thread save_dir pair (args_time a) ''order_book''
                             [(''depth'', AInt (args_depth a))]] else [])
                  @ (if args_spreads a \<noteq> 0
                     then [new_thread save_dir pair (args_time a) ''spread'' []] else [])
                  @ (if args_trades a \<noteq> 0
                     then [new_thread save_dir pair (args_time a) ''trades'' []] else [])
                  @ (if args_candles a \<noteq> 0
                     then [new_thread save_dir pair (args_time a) ''candles''
                             [(''granularity'', AInt (args_granularity a))]] else [])),
                w1)))"

section \<open>Notions used in the statements\<close>

text \<open>
  A collection record as the specification describes it: one JSON object with the keys
  \<^verbatim>\<open>ts\<close> and \<^verbatim>\<open>response\<close>, followed by a newline.
\<close>

definition record_line :: "real \<times> pyval \<Rightarrow> piece list" where
  "record_line rec =
     [Json_text (PDict [(''ts'', PFloat (fst rec)), (''response'', snd rec)]), Raw [CHR 0x0A]]"

text \<open>
  What a run of the loop from \<open>w\<close> to \<open>w'\<close> has done: read the clock, left the directories
  and every other file alone, and appended records to the file at \<open>path\<close>, each with a
  clock reading of the run and a value the endpoint returned.
\<close>

definition loop_post ::
  "(string \<rightharpoonup> endpoint) \<Rightarrow> string \<Rightarrow> arg \<Rightarrow> string \<Rightarrow> kwargs \<Rightarrow> world \<Rightarrow> world \<Rightarrow> bool" where
  "loop_post tbl path pair it kw w w' \<longleftrightarrow>
     clock w' = clock w \<and> ticks w < ticks w' \<and> dirs w' = dirs w \<and>
     (\<forall>q. q \<noteq> path \<longrightarrow> files w' q = files w q) \<and>
     (\<forall>c. files w path = Some c \<longrightarrow>
        (\<exists>recs. files w' path = Some (c @ concat (map record_line recs)) \<and>
           (\<forall>rec \<in> set recs.
              (\<exists>k. ticks w \<le> k \<and> k < ticks w' \<and> fst rec = clock w k) \<and>
              (\<exists>q q'. call_endpoint tbl it pair kw q = (Inr (snd rec), q')))))"

text \<open>
  The output file as the specification writes it,
  \<^verbatim>\<open>{base_dir}/{pair}/{exchange_suffix}/{data_type}.txt\<close>: the components in this order,
  one slash between them (the base directory of the source ends with its slash).
\<close>

definition spec_output_path :: "string \<Rightarrow> string \<Rightarrow> string" where
  "spec_output_path pair data_type =
     BASE_SAVE_DIR @ pair @ ''/'' @ ''kraken'' @ ''/'' @ data_type @ ''.txt''"

text \<open>The data types \<open>main\<close> can select, in the order it tests their flags.\<close>

definition info_types :: "string list" where
  "info_types = [''ticker'', ''order_book'', ''spread'', ''trades'', ''candles'']"

section \<open>Example inputs\<close>

text \<open>
  A world whose clock advances by one second at each reading, whose exchange answers the
  first request with a payload and every later one with an error, and which has one
  directory \<^verbatim>\<open>d\<close> and no file.
\<close>

definition demo_world :: world where
  "demo_world =
     \<lparr>clock = (\<lambda>n. real n), ticks = 0,
      ext = \<lparr>replies = (\<lambda>n u. if n = 0
                 then Json (PDict [(''ret_code'', PInt 0), (''ret_msg'', PStr ''OK''),
                                   (''result'', PList [PInt 7])])
                 else Json (PDict [(''ret_code'', PInt 10001),
                                   (''ret_msg'', PStr ''invalid symbol''), (''result'', PNone)])),
             requests = [], logged = []\<rparr>,
      dirs = {''d''}, files = Map.empty\<rparr>"

text \<open>A table whose order-book entry accepts the keyword \<^verbatim>\<open>product_id\<close> that the collector
  passes.\<close>

definition accepting_table :: "string \<rightharpoonup> endpoint" where
  "accepting_table =
     map_of [(''order_book'',
        call_keywords [''product_id'', ''debug'']
          (\<lambda>a. get_order_book (a ''product_id'' PAIR) (a ''debug'' DEBUG)))]"

text \<open>Flags selecting ticker, order book, spreads and candles for five seconds.\<close>

definition demo_args :: args where
  "demo_args =
     \<lparr>args_time = 5, args_pair = Some ''BTCUSD'', args_order_book = 1, args_depth = 3,
      args_candles = 1, args_granularity = 60, args_spreads = 1, args_trades = 0,
      args_ticker = 1\<rparr>"

section \<open>Properties of the HTTP client wrapper and the endpoint functions\<close>

lemma requests_make_request:
  "requests (snd (make_request url debug r)) = requests r @ [url]"
  by (simp add: make_request_def http_get_json_def logger_info_def Let_def
      split: http_reply.splits sum.splits prod.splits)

lemma http_get_json_logged:
  "http_get_json url (logger_info msg r) =
     (fst (http_get_json url r), logger_info msg (snd (http_get_json url r)))"
  by (simp add: http_get_json_def logger_info_def Let_def split: http_reply.splits)

lemma make_request_Json:
  assumes "replies r (length (requests r)) url = Json resp"
    and "subscript resp ''ret_code'' = Inr code"
  shows "fst (make_request url debug r) =
           subscript resp (if py_eq_int code 0 then ''result'' else ''ret_msg'')"
  using assms
  by (simp add: make_request_def http_get_json_def logger_info_def Let_def)

text \<open>
  C2. Let the reply to the request parse to a JSON object with a field \<^verbatim>\<open>ret_code\<close>. When
  the code equals 0 (as Python's \<^verbatim>\<open>==\<close> compares) and the object has a field \<^verbatim>\<open>result\<close>,
  \<open>make_request\<close> returns that field unchanged; when the code differs from 0 and the object
  has a field \<^verbatim>\<open>ret_msg\<close>, it returns that field.
\<close>

theorem make_request_envelope:
  assumes "replies r (length (requests r)) url = Json (PDict env)"
    and "map_of env ''ret_code'' = Some code"
  shows "(py_eq_int code 0 \<longrightarrow> map_of env ''result'' = Some res \<longrightarrow>
            fst (make_request url debug r) = Inr res) \<and>
         (\<not> py_eq_int code 0 \<longrightarrow> map_of env ''ret_msg'' = Some msg \<longrightarrow>
            fst (make_request url debug r) = Inr msg)"
proof -
  have "subscript (PDict env) ''ret_code'' = Inr code"
    using assms(2) by simp
  from make_request_Json [OF assms(1) this]
  have "fst (make_request url debug r) =
          subscript (PDict env) (if py_eq_int code 0 then ''result'' else ''ret_msg'')" .
  then show ?thesis by simp
qed

theorem make_request_envelope_witness:
  "fst (make_request ''u'' (ABool False)
      \<lparr>replies = (\<lambda>n u. Json (PDict [(''ret_code'', PInt 0), (''ret_msg'', PStr ''OK''),
                                      (''result'', PList [PInt 7])])),
       requests = [], logged = []\<rparr>) = Inr (PList [PInt 7]) \<and>
   fst (make_request ''u'' (ABool True)
      \<lparr>replies = (\<lambda>n u. Json (PDict [(''ret_code'', PInt 10001),
                                      (''ret_msg'', PStr ''invalid symbol''),
                                      (''result'', PNone)])),
       requests = [], logged = []\<rparr>) = Inr (PStr ''invalid symbol'')"
proof -
  let ?ok = "[(''ret_code'', PInt 0), (''ret_msg'', PStr ''OK''), (''result'', PList [PInt 7])]"
  let ?bad = "[(''ret_code'', PInt 10001), (''ret_msg'', PStr ''invalid symbol''),
              (''result'', PNone)]"
  have a: "fst (make_request ''u'' (ABool False)
      \<lparr>replies = (\<lambda>n u. Json (PDict ?ok)), requests = [], logged = []\<rparr>) = Inr (PList [PInt 7])"
    using make_request_envelope [of "\<lparr>replies = (\<lambda>n u. Json (PDict ?ok)), requests = [],
      logged = []\<rparr>" "''u''" ?ok "PInt 0" "PList [PInt 7]" "ABool False" PNone]
    by simp
  have b: "fst (make_request ''u'' (ABool True)
      \<lparr>replies = (\<lambda>n u. Json (PDict ?bad)), requests = [], logged = []\<rparr>)
      = Inr (PStr ''invalid symbol'')"
    using make_request_envelope [of "\<lparr>replies = (\<lambda>n u. Json (PDict ?bad)), requests = [],
      logged = []\<rparr>" "''u''" ?bad "PInt 10001" PNone "ABool True" "PStr ''invalid symbol''"]
    by simp
  from a b show ?thesis by simp
qed

text \<open>
  C5. Each endpoint function sends exactly one GET request, to the fixed base URL followed
  by the endpoint's path and query parameters: \<^verbatim>\<open>symbol\<close> for the order book;
  \<^verbatim>\<open>symbol\<close>, \<^verbatim>\<open>limit\<close> for the trades; \<^verbatim>\<open>symbol\<close>, \<^verbatim>\<open>interval\<close>, \<^verbatim>\<open>from\<close> for the candles;
  the same and \<^verbatim>\<open>limit=1\<close> for the ticker. In particular \<^verbatim>\<open>get_order_book(pair="BTCUSD")\<close>
  requests \<^verbatim>\<open>orderBook/L2?symbol=BTCUSD\<close>, and \<^verbatim>\<open>get_trades\<close> with its defaults requests
  \<^verbatim>\<open>trading-records?symbol=BTCUSD&limit=500\<close>.
\<close>

theorem endpoint_urls:
  "requests (snd (get_order_book (AStr pair) debug r)) =
     requests r @ [''https://api-testnet.bybit.com/v2/public/'' @ ''orderBook/L2?symbol='' @ pair] \<and>
   requests (snd (get_trades (AStr pair) (AInt limit) debug r)) =
     requests r @ [''https://api-testnet.bybit.com/v2/public/'' @ ''trading-records?symbol='' @ pair
                     @ ''&limit='' @ str_int limit] \<and>
   requests (snd (get_candles (AStr pair) (AStr interval) (AStr since) debug r)) =
     requests r @ [''https://api-testnet.bybit.com/v2/public/'' @ ''kline/list?symbol='' @ pair
                     @ ''&interval='' @ interval @ ''&from='' @ since] \<and>
   requests (snd (get_ticker (AStr pair) (AStr interval) (AStr since) debug r)) =
     requests r @ [''https://api-testnet.bybit.com/v2/public/'' @ ''kline/list?symbol='' @ pair
                     @ ''&interval='' @ interval @ ''&from='' @ since @ ''&limit=1''] \<and>
   requests (snd (get_order_book (AStr ''BTCUSD'') debug r)) =
     requests r @ [''https://api-testnet.bybit.com/v2/public/orderBook/L2?symbol=BTCUSD''] \<and>
   requests (snd (get_trades PAIR LIMIT debug r)) =
     requests r
       @ [''https://api-testnet.bybit.com/v2/public/trading-records?symbol=BTCUSD&limit=500'']"
  by (simp add: get_order_book_def get_trades_def get_candles_def get_ticker_def
      requests_make_request API_LINK_def PAIR_def LIMIT_def str_int_def str_nat.simps
      digit_char_def)

section \<open>Paths\<close>

lemma dropWhile_slash_rev:
  assumes "s \<noteq> []" "last s \<noteq> CHR ''/''"
  shows "dropWhile (\<lambda>c. c = CHR ''/'') (rev s) = rev s"
proof -
  from assms obtain x xs where "rev s = x # xs" "x \<noteq> CHR ''/''"
    by (metis hd_rev list.exhaust_sel rev_is_Nil_conv)
  then show ?thesis by simp
qed

lemma not_all_slash:
  assumes "s \<noteq> []" "last s \<noteq> CHR ''/''"
  shows "\<not> list_all (\<lambda>c. c = CHR ''/'') (s @ ''/'')"
proof -
  have "last s \<in> set s" using assms(1) by simp
  then show ?thesis using assms(2) by (auto simp: list_all_iff)
qed

lemma dirname_join:
  assumes "s \<noteq> []" "last s \<noteq> CHR ''/''" "CHR ''/'' \<notin> set t"
  shows "dirname (s @ ''/'' @ t) = s"
proof -
  have "\<And>x. x \<in> set (rev t) \<Longrightarrow> x \<noteq> CHR ''/''"
    using assms(3) by auto
  then have "dropWhile (\<lambda>c. c \<noteq> CHR ''/'') (rev t @ CHR ''/'' # rev s) =
      dropWhile (\<lambda>c. c \<noteq> CHR ''/'') (CHR ''/'' # rev s)"
    by (rule dropWhile_append2)
  then have 1: "dropWhile (\<lambda>c. c \<noteq> CHR ''/'') (rev (s @ ''/'' @ t)) = CHR ''/'' # rev s"
    by simp
  have 3: "rev (CHR ''/'' # rev s) = s @ ''/''" by simp
  have 4: "dropWhile (\<lambda>c. c = CHR ''/'') (rev (s @ ''/'')) = rev s"
    using dropWhile_slash_rev [OF assms(1,2)] by simp
  show ?thesis
    unfolding dirname_def Let_def 1 3 4 using not_all_slash [OF assms(1,2)] by simp
qed

lemma join_kraken:
  "\<exists>x. path_join BASE_SAVE_DIR [pair, ''kraken''] = x @ ''kraken''"
  by (simp add: path_join_def join_step_def)

lemma join_regular:
  "pair \<noteq> [] \<Longrightarrow> hd pair \<noteq> CHR ''/'' \<Longrightarrow> last pair \<noteq> CHR ''/'' \<Longrightarrow>
   path_join BASE_SAVE_DIR [pair, ''kraken''] = BASE_SAVE_DIR @ pair @ ''/kraken''"
  by (simp add: path_join_def join_step_def BASE_SAVE_DIR_def)

lemma output_file_kraken:
  assumes "CHR ''/'' \<notin> set it"
  shows "output_file (x @ ''kraken'') it = (x @ ''kraken'') @ ''/'' @ it @ ''.txt''"
proof -
  have "\<not> (it \<noteq> [] \<and> hd it = CHR ''/'')"
    using assms by (cases it) auto
  then show ?thesis
    by (simp add: output_file_def path_join_def join_step_def)
qed

lemma dirname_output_file:
  assumes "CHR ''/'' \<notin> set it"
  shows "dirname (output_file (x @ ''kraken'') it) = x @ ''kraken''"
proof -
  have "CHR ''/'' \<notin> set (it @ ''.txt'')" using assms by simp
  from dirname_join [of "x @ ''kraken''" "it @ ''.txt''", OF _ _ this]
  show ?thesis by (simp add: output_file_kraken [OF assms])
qed

lemma dirname_demo: "dirname (output_file ''d'' ''order_book'') = ''d''"
  by (simp add: output_file_def path_join_def join_step_def dirname_def)

section \<open>The collector loop with the shipped table\<close>

lemma call_keywords_product_id:
  "''product_id'' \<notin> set names \<Longrightarrow>
   call_keywords names body ((''product_id'', v) # kw) r =
     (Inl (TypeError ''unexpected keyword argument product_id''), r)"
  by (simp add: call_keywords_def)

lemma dom_FN_MAPPING: "dom FN_MAPPING = {''order_book'', ''trades'', ''ticker''}"
  by (auto simp: FN_MAPPING_def split: if_splits)

lemma FN_MAPPING_entry:
  assumes "info_type \<in> dom FN_MAPPING"
  shows "\<exists>names body. FN_MAPPING info_type = Some (call_keywords names body) \<and>
           ''product_id'' \<notin> set names"
proof -
  from assms have "info_type = ''order_book'' \<or> info_type = ''trades'' \<or> info_type = ''ticker''"
    by (simp add: dom_FN_MAPPING)
  then show ?thesis
  proof (elim disjE)
    assume "info_type = ''order_book''"
    then have "FN_MAPPING info_type = Some (call_keywords [''pair'', ''debug'']
        (\<lambda>a. get_order_book (a ''pair'' PAIR) (a ''debug'' DEBUG)))"
      by (simp add: FN_MAPPING_def get_order_book_kw_def)
    moreover have "''product_id'' \<notin> set [''pair'', ''debug'']" by simp
    ultimately show ?thesis by blast
  next
    assume "info_type = ''trades''"
    then have "FN_MAPPING info_type = Some (call_keywords [''pair'', ''limit'', ''debug'']
        (\<lambda>a. get_trades (a ''pair'' PAIR) (a ''limit'' LIMIT) (a ''debug'' DEBUG)))"
      by (simp add: FN_MAPPING_def get_trades_kw_def)
    moreover have "''product_id'' \<notin> set [''pair'', ''limit'', ''debug'']" by simp
    ultimately show ?thesis by blast
  next
    assume "info_type = ''ticker''"
    then have "FN_MAPPING info_type = Some (call_keywords [''pair'', ''interval'', ''since'', ''debug'']
        (\<lambda>a. get_ticker (a ''pair'' PAIR) (a ''interval'' INTERVAL) (a ''since'' SINCE)
           (a ''debug'' DEBUG)))"
      by (simp add: FN_MAPPING_def get_ticker_kw_def)
    moreover have "''product_id'' \<notin> set [''pair'', ''interval'', ''since'', ''debug'']" by simp
    ultimately show ?thesis by blast
  qed
qed

lemma call_endpoint_FN_MAPPING:
  assumes "info_type \<in> dom FN_MAPPING"
  shows "\<exists>msg. \<forall>r. call_endpoint FN_MAPPING info_type pair kwargs r = (Inl (TypeError msg), r)"
proof -
  from FN_MAPPING_entry [OF assms] obtain names body where
    f: "FN_MAPPING info_type = Some (call_keywords names body)"
    and n: "''product_id'' \<notin> set names"
    by blast
  show ?thesis
  proof (cases "''product_id'' \<in> set (map fst kwargs)")
    case True
    then have "\<forall>r. call_endpoint FN_MAPPING info_type pair kwargs r =
        (Inl (TypeError ''multiple values for keyword argument product_id''), r)"
      by (simp add: call_endpoint_def f)
    then show ?thesis by blast
  next
    case False
    then have "\<forall>r. call_endpoint FN_MAPPING info_type pair kwargs r =
        (Inl (TypeError ''unexpected keyword argument product_id''), r)"
      by (simp add: call_endpoint_def f call_keywords_product_id [OF n])
    then show ?thesis by blast
  qed
qed

lemma call_endpoint_missing:
  "tbl info_type = None \<Longrightarrow>
   call_endpoint tbl info_type pair kwargs r = (Inl (KeyError info_type), r)"
  by (simp add: call_endpoint_def)

lemma collect_loop_raise:
  "clock w (ticks w) - start < D \<Longrightarrow> call_endpoint tbl it pair kw (ext w) = (Inl e, r) \<Longrightarrow>
   collect_loop tbl path pair D it kw start w = Some (Inl e, w\<lparr>ticks := ticks w + 2, ext := r\<rparr>)"
  by (subst collect_loop.simps) (simp add: time_time_def)

lemma collect_loop_exit:
  "\<not> clock w (ticks w) - start < D \<Longrightarrow>
   collect_loop tbl path pair D it kw start w = Some (Inr (), w\<lparr>ticks := Suc (ticks w)\<rparr>)"
  by (subst collect_loop.simps) (simp add: time_time_def)

lemma store_info_with_raise:
  assumes "dirname (output_file sd it) \<in> dirs w"
    and "clock w (Suc (ticks w)) - clock w (ticks w) < D"
    and "\<And>r. call_endpoint tbl it pair kw r = (Inl e, r)"
  shows "store_info_with tbl sd pair D it kw w =
    Some (Inl e, w\<lparr>ticks := ticks w + 3,
       ext := logger_info (''Collecting '' @ it @ '' data for '' @ py_str pair) (ext w),
       files := (files w)(output_file sd it \<mapsto> [])\<rparr>)"
  using assms(1,2)
  by (simp add: store_info_with_def log_world_def open_w_def time_time_def Let_def
      collect_loop_raise [where e = e, OF _ assms(3)])

lemma store_info_with_no_loop:
  assumes "dirname (output_file sd it) \<in> dirs w"
    and "\<not> clock w (Suc (ticks w)) - clock w (ticks w) < D"
  shows "store_info_with tbl sd pair D it kw w =
    Some (Inr (), w\<lparr>ticks := ticks w + 2,
       ext := logger_info (''Finished collecting '' @ it @ '' data for '' @ py_str pair)
                (logger_info (''Collecting '' @ it @ '' data for '' @ py_str pair) (ext w)),
       files := (files w)(output_file sd it \<mapsto> [])\<rparr>)"
  using assms
  by (simp add: store_info_with_def log_world_def open_w_def time_time_def Let_def
      collect_loop_exit)

text \<open>What a run of the shipped collector does to the files: it creates or empties its own.\<close>

lemma store_info_files:
  assumes "dirname (output_file sd it) \<in> dirs w"
  shows "\<exists>r w'. store_info sd pair D it kw w = Some (r, w') \<and>
     files w' = (files w)(output_file sd it \<mapsto> []) \<and> dirs w' = dirs w"
proof (cases "clock w (Suc (ticks w)) - clock w (ticks w) < D")
  case False
  from store_info_with_no_loop [OF assms False] show ?thesis
    by (simp add: store_info_def)
next
  case test: True
  show ?thesis
  proof (cases "it \<in> dom FN_MAPPING")
    case True
    from call_endpoint_FN_MAPPING [OF this] obtain msg where
      "\<And>r. call_endpoint FN_MAPPING it pair kw r = (Inl (TypeError msg), r)"
      by blast
    from store_info_with_raise [OF assms test this]
    show ?thesis by (simp add: store_info_def)
  next
    case False
    then have "\<And>r. call_endpoint FN_MAPPING it pair kw r = (Inl (KeyError it), r)"
      by (simp add: call_endpoint_missing domIff)
    from store_info_with_raise [OF assms test this]
    show ?thesis by (simp add: store_info_def)
  qed
qed

text \<open>The shipped collector always comes back, whatever the clock does: an endpoint call
  raises in the first turn of the loop.\<close>

lemma store_info_returns:
  "\<exists>r w'. store_info save_dir pair collection_time info_type kwargs w = Some (r, w')"
proof (cases "dirname (output_file save_dir info_type) \<in> dirs w")
  case False
  then show ?thesis
    by (simp add: store_info_def store_info_with_def open_w_def log_world_def Let_def)
next
  case True
  show ?thesis
  proof (cases "clock w (Suc (ticks w)) - clock w (ticks w) < collection_time")
    case False
    from store_info_with_no_loop [OF True False] show ?thesis
      by (simp add: store_info_def)
  next
    case test: True
    show ?thesis
    proof (cases "info_type \<in> dom FN_MAPPING")
      case True
      from call_endpoint_FN_MAPPING [OF this] obtain msg where
        "\<And>r. call_endpoint FN_MAPPING info_type pair kwargs r = (Inl (TypeError msg), r)"
        by blast
      from store_info_with_raise [OF \<open>dirname (output_file save_dir info_type) \<in> dirs w\<close> test this]
      show ?thesis by (simp add: store_info_def)
    next
      case False
      then have "\<And>r. call_endpoint FN_MAPPING info_type pair kwargs r = (Inl (KeyError info_type), r)"
        by (simp add: call_endpoint_missing domIff)
      from store_info_with_raise [OF \<open>dirname (output_file save_dir info_type) \<in> dirs w\<close> test this]
      show ?thesis by (simp add: store_info_def)
    qed
  qed
qed

text \<open>
  C4. For every data type in \<open>FN_MAPPING\<close> (\<^verbatim>\<open>order_book\<close>, \<^verbatim>\<open>trades\<close>, \<^verbatim>\<open>ticker\<close>), every pair,
  every keyword dictionary and every duration: when the directory of the output file exists
  and the first test of the loop succeeds (the clock reading of the test is less than the
  duration after the start reading, as it is for a positive duration unless the clock jumps
  between two consecutive readings), \<open>store_info\<close> raises TypeError in the first turn of the
  loop, after three readings of the clock: the endpoint is called with the keyword
  \<^verbatim>\<open>product_id\<close>, which none accepts. No request has been sent, no record written, and the
  output file is left created and empty; no other file has changed.
\<close>

theorem store_info_product_id:
  assumes "info_type \<in> dom FN_MAPPING"
    and "dirname (output_file save_dir info_type) \<in> dirs w"
    and "clock w (Suc (ticks w)) - clock w (ticks w) < collection_time"
  shows "dom FN_MAPPING = {''order_book'', ''trades'', ''ticker''} \<and>
         (\<exists>msg w'. store_info save_dir pair collection_time info_type kwargs w =
             Some (Inl (TypeError msg), w') \<and>
           ticks w' = ticks w + 3 \<and>
           files w' = (files w)(output_file save_dir info_type \<mapsto> []) \<and>
           requests (ext w') = requests (ext w))"
proof -
  from call_endpoint_FN_MAPPING [OF assms(1)] obtain msg where
    "\<And>r. call_endpoint FN_MAPPING info_type pair kwargs r = (Inl (TypeError msg), r)"
    by blast
  from store_info_with_raise [OF assms(2,3) this]
  show ?thesis by (simp add: store_info_def logger_info_def dom_FN_MAPPING)
qed

theorem store_info_product_id_witness:
  "''order_book'' \<in> dom FN_MAPPING \<and>
   dirname (output_file ''d'' ''order_book'') \<in> dirs demo_world \<and>
   clock demo_world (Suc (ticks demo_world)) - clock demo_world (ticks demo_world) < 5 \<and>
   (\<exists>msg w'. store_info ''d'' (AStr ''BTCUSD'') 5 ''order_book'' [] demo_world =
             Some (Inl (TypeError msg), w') \<and>
           ticks w' = ticks demo_world + 3 \<and>
           files w' = (files demo_world)(output_file ''d'' ''order_book'' \<mapsto> []) \<and>
           requests (ext w') = requests (ext demo_world))"
proof -
  have a: "''order_book'' \<in> dom FN_MAPPING" by (simp add: dom_FN_MAPPING)
  have b: "dirname (output_file ''d'' ''order_book'') \<in> dirs demo_world"
    by (simp add: dirname_demo demo_world_def)
  have c: "clock demo_world (Suc (ticks demo_world)) - clock demo_world (ticks demo_world) < 5"
    by (simp add: demo_world_def)
  from store_info_product_id [OF a b c, of "AStr ''BTCUSD''" "[]"] a b c show ?thesis by blast
qed

text \<open>
  C3. The specification wants the last record of the file to carry a time at least
  \<open>start + D\<close>, up to one request's latency. Run for five seconds on the order book, with
  a clock that advances by one second at each reading, the shipped \<open>store_info\<close> raises
  TypeError two seconds after the start and leaves the file empty: there is no record.
\<close>

theorem store_info_under_run:
  "store_info ''d'' (AStr ''BTCUSD'') 5 ''order_book'' [] demo_world =
     Some (Inl (TypeError ''unexpected keyword argument product_id''),
       demo_world\<lparr>ticks := 3,
         ext := logger_info ''Collecting order_book data for BTCUSD'' (ext demo_world),
         files := (files demo_world)(''d/order_book.txt'' \<mapsto> [])\<rparr>) \<and>
   clock demo_world 2 - clock demo_world 0 < 5"
proof -
  have b: "dirname (output_file ''d'' ''order_book'') \<in> dirs demo_world"
    by (simp add: dirname_demo demo_world_def)
  have c: "clock demo_world (Suc (ticks demo_world)) - clock demo_world (ticks demo_world) < 5"
    by (simp add: demo_world_def)
  have e: "\<And>r. call_endpoint FN_MAPPING ''order_book'' (AStr ''BTCUSD'') [] r =
      (Inl (TypeError ''unexpected keyword argument product_id''), r)"
    by (simp add: call_endpoint_def FN_MAPPING_def get_order_book_kw_def call_keywords_product_id)
  have o: "output_file ''d'' ''order_book'' = ''d/order_book.txt''"
    by (simp add: output_file_def path_join_def join_step_def)
  from store_info_with_raise [OF b c e] show ?thesis
    by (simp add: store_info_def o demo_world_def)
qed

section \<open>The collector loop with any table\<close>

lemma file_write_simps [simp]:
  "clock (file_write path p w) = clock w"
  "ticks (file_write path p w) = ticks w"
  "ext (file_write path p w) = ext w"
  "dirs (file_write path p w) = dirs w"
  "q \<noteq> path \<Longrightarrow> files (file_write path p w) q = files w q"
  "files w path = Some c \<Longrightarrow> files (file_write path p w) path = Some (c @ [p])"
  by (simp_all add: file_write_def)

lemma loop_post_exit: "loop_post tbl path pair it kw w (w\<lparr>ticks := Suc (ticks w)\<rparr>)"
  unfolding loop_post_def
  by (auto intro: exI [where x = "[]"])

lemma loop_post_raise: "loop_post tbl path pair it kw w (w\<lparr>ticks := Suc (Suc (ticks w)), ext := r\<rparr>)"
  unfolding loop_post_def
  by (auto intro: exI [where x = "[]"])

lemma loop_post_step:
  assumes call: "call_endpoint tbl it pair kw (ext w) = (Inr resp, r)"
    and post: "loop_post tbl path pair it kw
      (file_write path (Raw [CHR 0x0A])
         (file_write path (Json_text (PDict [(''ts'', PFloat (clock w (Suc (ticks w)))), (''response'', resp)]))
            (w\<lparr>ticks := Suc (Suc (ticks w)), ext := r\<rparr>))) w'"
  shows "loop_post tbl path pair it kw w w'"
proof -
  let ?w2 = "w\<lparr>ticks := Suc (Suc (ticks w)), ext := r\<rparr>"
  let ?j = "Json_text (PDict [(''ts'', PFloat (clock w (Suc (ticks w)))), (''response'', resp)])"
  let ?w4 = "file_write path (Raw [CHR 0x0A]) (file_write path ?j ?w2)"
  from post have clk: "clock w' = clock w" and tk: "Suc (Suc (ticks w)) < ticks w'"
    and dr: "dirs w' = dirs w"
    and other: "\<forall>q. q \<noteq> path \<longrightarrow> files w' q = files w q"
    by (simp_all add: loop_post_def)
  have "\<exists>recs. files w' path = Some (c @ concat (map record_line recs)) \<and>
           (\<forall>rec \<in> set recs.
              (\<exists>k. ticks w \<le> k \<and> k < ticks w' \<and> fst rec = clock w k) \<and>
              (\<exists>q q'. call_endpoint tbl it pair kw q = (Inr (snd rec), q')))"
    if c: "files w path = Some c" for c
  proof -
    have "files ?w4 path = Some (c @ record_line (clock w (Suc (ticks w)), resp))"
      using c by (simp add: record_line_def)
    with post obtain recs where
      f: "files w' path = Some ((c @ record_line (clock w (Suc (ticks w)), resp)) @ concat (map record_line recs))"
      and v: "\<forall>rec \<in> set recs.
              (\<exists>k. Suc (Suc (ticks w)) \<le> k \<and> k < ticks w' \<and> fst rec = clock w k) \<and>
              (\<exists>q q'. call_endpoint tbl it pair kw q = (Inr (snd rec), q'))"
      unfolding loop_post_def by auto
    let ?recs = "(clock w (Suc (ticks w)), resp) # recs"
    have "files w' path = Some (c @ concat (map record_line ?recs))"
      using f by simp
    moreover have "\<forall>rec \<in> set ?recs.
              (\<exists>k. ticks w \<le> k \<and> k < ticks w' \<and> fst rec = clock w k) \<and>
              (\<exists>q q'. call_endpoint tbl it pair kw q = (Inr (snd rec), q'))"
    proof
      fix rec assume "rec \<in> set ?recs"
      then consider "rec = (clock w (Suc (ticks w)), resp)" | "rec \<in> set recs" by auto
      then show "(\<exists>k. ticks w \<le> k \<and> k < ticks w' \<and> fst rec = clock w k) \<and>
              (\<exists>q q'. call_endpoint tbl it pair kw q = (Inr (snd rec), q'))"
      proof cases
        case 1
        have "ticks w \<le> Suc (ticks w) \<and> Suc (ticks w) < ticks w' \<and> fst rec = clock w (Suc (ticks w))"
          using 1 tk by simp
        moreover have "call_endpoint tbl it pair kw (ext w) = (Inr (snd rec), r)"
          using 1 call by simp
        ultimately show ?thesis by blast
      next
        case 2
        with v obtain k where "Suc (Suc (ticks w)) \<le> k" "k < ticks w'" "fst rec = clock w k"
          and "\<exists>q q'. call_endpoint tbl it pair kw q = (Inr (snd rec), q')"
          by blast
        then have "ticks w \<le> k \<and> k < ticks w' \<and> fst rec = clock w k" by simp
        with \<open>\<exists>q q'. call_endpoint tbl it pair kw q = (Inr (snd rec), q')\<close>
        show ?thesis by blast
      qed
    qed
    ultimately show ?thesis by blast
  qed
  moreover have "ticks w < ticks w'" using tk by simp
  ultimately show ?thesis
    unfolding loop_post_def using clk dr other by simp
qed

lemma collect_loop_post:
  assumes "collect_loop tbl path pair D it kw start w = Some res"
  shows "loop_post tbl path pair it kw w (snd res)"
proof (rule collect_loop.raw_induct
    [where P = "\<lambda>tbl path pair D it kw start w res. loop_post tbl path pair it kw w (snd res)",
     OF _ assms])
  fix loop :: "(string \<rightharpoonup> endpoint) \<Rightarrow> string \<Rightarrow> arg \<Rightarrow> real \<Rightarrow> string \<Rightarrow> kwargs \<Rightarrow> real \<Rightarrow> world
     \<Rightarrow> ((exn + unit) \<times> world) option"
  fix tbl path pair D it kw start w res
  assume IH: "\<And>tbl path pair D it kw start w res.
      loop tbl path pair D it kw start w = Some res \<Longrightarrow> loop_post tbl path pair it kw w (snd res)"
  assume eq: "(case time_time w of
      (now, w1) \<Rightarrow>
        if now - start < D
        then case time_time w1 of
             (ts, w2) \<Rightarrow>
               case call_endpoint tbl it pair kw (ext w2) of
               (Inl e, r) \<Rightarrow> Some (Inl e, w2\<lparr>ext := r\<rparr>)
               | (Inr response, r) \<Rightarrow>
                   loop tbl path pair D it kw start
                    (file_write path (Raw [CHR 0x0A])
                      (file_write path
                        (Json_text (PDict [(''ts'', PFloat ts), (''response'', response)]))
                        (w2\<lparr>ext := r\<rparr>)))
        else Some (Inr (), w1)) = Some res"
  show "loop_post tbl path pair it kw w (snd res)"
  proof (cases "clock w (ticks w) - start < D")
    case False
    with eq have "res = (Inr (), w\<lparr>ticks := Suc (ticks w)\<rparr>)"
      by (simp add: time_time_def)
    then show ?thesis by (simp add: loop_post_exit)
  next
    case True
    show ?thesis
    proof (cases "call_endpoint tbl it pair kw (ext w)")
      case (Pair out r)
      show ?thesis
      proof (cases out)
        case (Inl e)
        with eq True Pair have "res = (Inl e, w\<lparr>ticks := Suc (Suc (ticks w)), ext := r\<rparr>)"
          by (simp add: time_time_def)
        then show ?thesis by (simp add: loop_post_raise)
      next
        case (Inr resp)
        let ?w4 = "file_write path (Raw [CHR 0x0A])
           (file_write path (Json_text (PDict [(''ts'', PFloat (clock w (Suc (ticks w)))), (''response'', resp)]))
            (w\<lparr>ticks := Suc (Suc (ticks w)), ext := r\<rparr>))"
        from eq True Pair Inr have "loop tbl path pair D it kw start ?w4 = Some res"
          by (simp add: time_time_def)
        from IH [OF this] have "loop_post tbl path pair it kw ?w4 (snd res)" .
        with Pair Inr show ?thesis by (auto intro: loop_post_step)
      qed
    qed
  qed
qed

lemma store_info_with_post:
  assumes run: "store_info_with tbl sd pair D it kw w = Some (r, w')"
    and dir: "dirname (output_file sd it) \<in> dirs w"
  shows "\<exists>w2. clock w2 = clock w \<and> ticks w2 = Suc (ticks w) \<and> dirs w2 = dirs w \<and>
           files w2 = (files w)(output_file sd it \<mapsto> []) \<and>
           loop_post tbl (output_file sd it) pair it kw w2 w'"
proof -
  let ?p = "output_file sd it"
  let ?w2 = "(log_world (''Collecting '' @ it @ '' data for '' @ py_str pair) w)
     \<lparr>files := (files w)(?p \<mapsto> []), ticks := Suc (ticks w)\<rparr>"
  from run dir obtain res where loop: "collect_loop tbl ?p pair D it kw (clock w (ticks w)) ?w2 = Some res"
    and w': "w' = snd res \<or> w' = log_world (''Finished collecting '' @ it @ '' data for '' @ py_str pair) (snd res)"
    by (auto simp: store_info_with_def open_w_def time_time_def log_world_def Let_def
        split: option.splits sum.splits prod.splits)
  from collect_loop_post [OF loop] have "loop_post tbl ?p pair it kw ?w2 (snd res)" .
  then have "loop_post tbl ?p pair it kw ?w2 w'"
    using w' by (auto simp: loop_post_def log_world_def)
  moreover have "clock ?w2 = clock w \<and> ticks ?w2 = Suc (ticks w) \<and> dirs ?w2 = dirs w \<and>
           files ?w2 = (files w)(?p \<mapsto> [])"
    by (simp add: log_world_def)
  ultimately show ?thesis by blast
qed

text \<open>
  C1. Whatever the table of endpoint functions, the data type, the pair and the duration:
  when \<open>store_info\<close> has opened its file and comes back (returning or raising), the file
  holds records and nothing else. Each record is the JSON text of a dict with exactly the
  keys \<^verbatim>\<open>ts\<close> and \<^verbatim>\<open>response\<close>, followed by a newline; its \<^verbatim>\<open>ts\<close> is a clock reading taken
  during the run and its \<^verbatim>\<open>response\<close> is a value the endpoint call returned. A payload and
  an error string are returned values alike, so both are written in this one form.
\<close>

theorem store_info_records:
  assumes "store_info_with tbl save_dir pair collection_time info_type kwargs w = Some (r, w')"
    and "dirname (output_file save_dir info_type) \<in> dirs w"
  shows "\<exists>recs. files w' (output_file save_dir info_type) = Some (concat (map record_line recs)) \<and>
           (\<forall>rec \<in> set recs.
              (\<exists>k. ticks w < k \<and> k < ticks w' \<and> fst rec = clock w k) \<and>
              (\<exists>q q'. call_endpoint tbl info_type pair kwargs q = (Inr (snd rec), q')))"
proof -
  from store_info_with_post [OF assms] obtain w2 where
    w2: "clock w2 = clock w" "ticks w2 = Suc (ticks w)"
      "files w2 = (files w)(output_file save_dir info_type \<mapsto> [])"
    and post: "loop_post tbl (output_file save_dir info_type) pair info_type kwargs w2 w'"
    by blast
  have "files w2 (output_file save_dir info_type) = Some []"
    using w2(3) by simp
  with post obtain recs where
    f: "files w' (output_file save_dir info_type) = Some ([] @ concat (map record_line recs))"
    and v: "\<forall>rec \<in> set recs.
              (\<exists>k. ticks w2 \<le> k \<and> k < ticks w' \<and> fst rec = clock w2 k) \<and>
              (\<exists>q q'. call_endpoint tbl info_type pair kwargs q = (Inr (snd rec), q'))"
    unfolding loop_post_def by blast
  have "\<forall>rec \<in> set recs.
              (\<exists>k. ticks w < k \<and> k < ticks w' \<and> fst rec = clock w k) \<and>
              (\<exists>q q'. call_endpoint tbl info_type pair kwargs q = (Inr (snd rec), q'))"
  proof
    fix rec assume "rec \<in> set recs"
    with v obtain k where k: "ticks w2 \<le> k" "k < ticks w'" "fst rec = clock w2 k"
      and c: "\<exists>q q'. call_endpoint tbl info_type pair kwargs q = (Inr (snd rec), q')"
      by blast
    from k w2 have "ticks w < k \<and> k < ticks w' \<and> fst rec = clock w k" by simp
    with c show "(\<exists>k. ticks w < k \<and> k < ticks w' \<and> fst rec = clock w k) \<and>
              (\<exists>q q'. call_endpoint tbl info_type pair kwargs q = (Inr (snd rec), q'))"
      by blast
  qed
  with f show ?thesis by auto
qed

lemma demo_run:
  "\<exists>w'. store_info_with accepting_table ''d'' (AStr ''BTCUSD'') 4 ''order_book'' [] demo_world =
           Some (Inr (), w') \<and>
         ticks w' = 6 \<and>
         files w' (output_file ''d'' ''order_book'') =
           Some (concat (map record_line [(2, PList [PInt 7]), (4, PStr ''invalid symbol'')]))"
  by (simp add: store_info_with_def demo_world_def accepting_table_def open_w_def log_world_def
      logger_info_def time_time_def collect_loop.simps call_endpoint_def call_keywords_def
      get_order_book_def make_request_def http_get_json_def file_write_def Let_def
      output_file_def path_join_def join_step_def dirname_def record_line_def DEBUG_def PAIR_def)

theorem store_info_records_witness:
  "\<exists>w'. store_info_with accepting_table ''d'' (AStr ''BTCUSD'') 4 ''order_book'' [] demo_world =
           Some (Inr (), w') \<and>
         dirname (output_file ''d'' ''order_book'') \<in> dirs demo_world \<and>
         files w' (output_file ''d'' ''order_book'') =
           Some (concat (map record_line [(2, PList [PInt 7]), (4, PStr ''invalid symbol'')])) \<and>
         (\<exists>recs. files w' (output_file ''d'' ''order_book'') = Some (concat (map record_line recs)) \<and>
           (\<forall>rec \<in> set recs.
              (\<exists>k. ticks demo_world < k \<and> k < ticks w' \<and> fst rec = clock demo_world k) \<and>
              (\<exists>q q'. call_endpoint accepting_table ''order_book'' (AStr ''BTCUSD'') [] q =
                 (Inr (snd rec), q'))))"
proof -
  from demo_run obtain w' where
    run: "store_info_with accepting_table ''d'' (AStr ''BTCUSD'') 4 ''order_book'' [] demo_world =
           Some (Inr (), w')"
    and content: "files w' (output_file ''d'' ''order_book'') =
           Some (concat (map record_line [(2, PList [PInt 7]), (4, PStr ''invalid symbol'')]))"
    by blast
  have dir: "dirname (output_file ''d'' ''order_book'') \<in> dirs demo_world"
    by (simp add: dirname_demo demo_world_def)
  from store_info_records [OF run dir] run dir content show ?thesis by blast
qed

lemma collect_loop_exit_post:
  assumes "\<not> clock w (ticks w) - start < D"
  shows "\<exists>r w'. collect_loop tbl path pair D it kw start w = Some (r, w') \<and>
     (r = Inr () \<longrightarrow>
        (\<exists>m\<le>n. ticks w' = ticks w + 2 * m + 1 \<and>
           D \<le> clock w (ticks w + 2 * m) - start \<and>
           (\<forall>k<m. clock w (ticks w + 2 * k) - start < D) \<and>
           (\<forall>c. files w path = Some c \<longrightarrow>
              (\<exists>c'. files w' path = Some (c @ c') \<and> length c' = 2 * m))))"
proof -
  let ?w' = "w\<lparr>ticks := Suc (ticks w)\<rparr>"
  have run: "collect_loop tbl path pair D it kw start w = Some (Inr (), ?w')"
    using assms by (rule collect_loop_exit)
  have "\<exists>m\<le>n. ticks ?w' = ticks w + 2 * m + 1 \<and>
           D \<le> clock w (ticks w + 2 * m) - start \<and>
           (\<forall>k<m. clock w (ticks w + 2 * k) - start < D) \<and>
           (\<forall>c. files w path = Some c \<longrightarrow>
              (\<exists>c'. files ?w' path = Some (c @ c') \<and> length c' = 2 * m))"
    by (rule exI [where x = 0]) (use assms in simp)
  with run show ?thesis by blast
qed

lemma collect_loop_terminates:
  "D \<le> clock w (ticks w + 2 * n) - start \<Longrightarrow>
   \<exists>r w'. collect_loop tbl path pair D it kw start w = Some (r, w') \<and>
     (r = Inr () \<longrightarrow>
        (\<exists>m\<le>n. ticks w' = ticks w + 2 * m + 1 \<and>
           D \<le> clock w (ticks w + 2 * m) - start \<and>
           (\<forall>k<m. clock w (ticks w + 2 * k) - start < D) \<and>
           (\<forall>c. files w path = Some c \<longrightarrow>
              (\<exists>c'. files w' path = Some (c @ c') \<and> length c' = 2 * m))))"
proof (induction n arbitrary: w)
  case 0
  then have "\<not> clock w (ticks w) - start < D" by simp
  then show ?case by (rule collect_loop_exit_post)
next
  case (Suc n)
  show ?case
  proof (cases "clock w (ticks w) - start < D")
    case False
    then show ?thesis by (rule collect_loop_exit_post)
  next
    case True
    show ?thesis
    proof (cases "call_endpoint tbl it pair kw (ext w)")
      case (Pair out r)
      show ?thesis
      proof (cases out)
        case (Inl e)
        with Pair have "call_endpoint tbl it pair kw (ext w) = (Inl e, r)" by simp
        from collect_loop_raise [OF True this] show ?thesis by simp
      next
        case (Inr resp)
        let ?w4 = "file_write path (Raw [CHR 0x0A])
           (file_write path (Json_text (PDict [(''ts'', PFloat (clock w (Suc (ticks w)))), (''response'', resp)]))
            (w\<lparr>ticks := Suc (Suc (ticks w)), ext := r\<rparr>))"
        have step: "collect_loop tbl path pair D it kw start w = collect_loop tbl path pair D it kw start ?w4"
          using True Pair Inr by (subst collect_loop.simps) (simp add: time_time_def)
        have "D \<le> clock ?w4 (ticks ?w4 + 2 * n) - start"
          using Suc.prems by simp
        from Suc.IH [OF this] obtain r' w' where
          run: "collect_loop tbl path pair D it kw start ?w4 = Some (r', w')"
          and fin: "r' = Inr () \<longrightarrow>
            (\<exists>m\<le>n. ticks w' = ticks ?w4 + 2 * m + 1 \<and>
               D \<le> clock ?w4 (ticks ?w4 + 2 * m) - start \<and>
               (\<forall>k<m. clock ?w4 (ticks ?w4 + 2 * k) - start < D) \<and>
               (\<forall>c. files ?w4 path = Some c \<longrightarrow>
                  (\<exists>c'. files w' path = Some (c @ c') \<and> length c' = 2 * m)))"
          by blast
        have "\<exists>m\<le>Suc n. ticks w' = ticks w + 2 * m + 1 \<and>
               D \<le> clock w (ticks w + 2 * m) - start \<and>
               (\<forall>k<m. clock w (ticks w + 2 * k) - start < D) \<and>
               (\<forall>c. files w path = Some c \<longrightarrow>
                  (\<exists>c'. files w' path = Some (c @ c') \<and> length c' = 2 * m))"
          if "r' = Inr ()"
        proof -
          from fin that obtain m where m: "m \<le> n" "ticks w' = ticks w + 2 * Suc m + 1"
            "D \<le> clock w (ticks w + 2 * Suc m) - start"
            and before: "\<forall>k<m. clock w (ticks w + 2 * Suc k) - start < D"
            and fl: "\<forall>c. files ?w4 path = Some c \<longrightarrow>
                  (\<exists>c'. files w' path = Some (c @ c') \<and> length c' = 2 * m)"
            by auto
          have "\<forall>k<Suc m. clock w (ticks w + 2 * k) - start < D"
          proof (intro allI impI)
            fix k assume "k < Suc m"
            show "clock w (ticks w + 2 * k) - start < D"
            proof (cases k)
              case 0
              then show ?thesis using True by simp
            next
              case (Suc j)
              with \<open>k < Suc m\<close> have "j < m" by simp
              with before Suc show ?thesis by simp
            qed
          qed
          moreover have "\<exists>c'. files w' path = Some (c @ c') \<and> length c' = 2 * Suc m"
            if c: "files w path = Some c" for c
          proof -
            let ?two = "[Json_text (PDict [(''ts'', PFloat (clock w (Suc (ticks w)))), (''response'', resp)]), Raw [CHR 0x0A]]"
            have "files ?w4 path = Some (c @ ?two)"
              using c by simp
            with fl obtain c' where "files w' path = Some ((c @ ?two) @ c')" "length c' = 2 * m"
              by blast
            then have "files w' path = Some (c @ (?two @ c')) \<and> length (?two @ c') = 2 * Suc m"
              by simp
            then show ?thesis by blast
          qed
          ultimately show ?thesis using m by (intro exI [where x = "Suc m"]) simp
        qed
        with run step show ?thesis by simp
      qed
    qed
  qed
qed

text \<open>
  C9. Whatever the table of endpoint functions: if one of the tests of the loop, the
  \<open>n\<close>-th say, would read a time at least the duration after the start reading (time
  passes), then \<open>store_info\<close> comes back, returning or raising. When it returns, it has made
  \<open>m \<le> n\<close> turns, each one a call of the endpoint and the write of one line of two pieces,
  with nothing between a turn and the next test; the test that ended the loop is the first
  whose reading is at least the duration after the start, so every earlier test read a
  time less than that: the loop runs over the duration by less than the time between its
  last two tests, which is one request and its write.
\<close>

theorem store_info_terminates:
  assumes "collection_time \<le> clock w (ticks w + 1 + 2 * n) - clock w (ticks w)"
  shows "\<exists>r w'. store_info_with tbl save_dir pair collection_time info_type kwargs w = Some (r, w') \<and>
     (r = Inr () \<longrightarrow>
        (\<exists>m\<le>n. ticks w' = ticks w + 2 * m + 2 \<and>
           collection_time \<le> clock w (ticks w + 1 + 2 * m) - clock w (ticks w) \<and>
           (\<forall>k<m. clock w (ticks w + 1 + 2 * k) - clock w (ticks w) < collection_time) \<and>
           (\<exists>c. files w' (output_file save_dir info_type) = Some c \<and> length c = 2 * m)))"
proof (cases "dirname (output_file save_dir info_type) \<in> dirs w")
  case False
  then show ?thesis
    by (simp add: store_info_with_def open_w_def log_world_def Let_def)
next
  case True
  let ?p = "output_file save_dir info_type"
  let ?w2 = "(log_world (''Collecting '' @ info_type @ '' data for '' @ py_str pair) w)
     \<lparr>files := (files w)(?p \<mapsto> []), ticks := Suc (ticks w)\<rparr>"
  have "collection_time \<le> clock ?w2 (ticks ?w2 + 2 * n) - clock w (ticks w)"
    using assms by (simp add: log_world_def)
  from collect_loop_terminates [OF this, of tbl ?p pair info_type kwargs]
  obtain r w' where run: "collect_loop tbl ?p pair collection_time info_type kwargs (clock w (ticks w)) ?w2 = Some (r, w')"
    and fin: "r = Inr () \<longrightarrow>
        (\<exists>m\<le>n. ticks w' = ticks ?w2 + 2 * m + 1 \<and>
           collection_time \<le> clock ?w2 (ticks ?w2 + 2 * m) - clock w (ticks w) \<and>
           (\<forall>k<m. clock ?w2 (ticks ?w2 + 2 * k) - clock w (ticks w) < collection_time) \<and>
           (\<forall>c. files ?w2 ?p = Some c \<longrightarrow>
              (\<exists>c'. files w' ?p = Some (c @ c') \<and> length c' = 2 * m)))"
    by blast
  show ?thesis
  proof (cases r)
    case (Inl e)
    with run True show ?thesis
      by (simp add: store_info_with_def open_w_def log_world_def time_time_def Let_def)
  next
    case (Inr u)
    let ?w' = "log_world (''Finished collecting '' @ info_type @ '' data for '' @ py_str pair) w'"
    from Inr run True have res: "store_info_with tbl save_dir pair collection_time info_type kwargs w = Some (Inr (), ?w')"
      by (simp add: store_info_with_def open_w_def log_world_def time_time_def Let_def)
    from fin Inr obtain m where m: "m \<le> n" "ticks w' = Suc (ticks w) + 2 * m + 1"
      "collection_time \<le> clock w (Suc (ticks w) + 2 * m) - clock w (ticks w)"
      "\<forall>k<m. clock w (Suc (ticks w) + 2 * k) - clock w (ticks w) < collection_time"
      and fl: "\<forall>c. files ?w2 ?p = Some c \<longrightarrow> (\<exists>c'. files w' ?p = Some (c @ c') \<and> length c' = 2 * m)"
      by (auto simp: log_world_def)
    have "files ?w2 ?p = Some []" by simp
    with fl obtain c' where c': "files w' ?p = Some c'" "length c' = 2 * m" by auto
    have "m \<le> n \<and> ticks ?w' = ticks w + 2 * m + 2 \<and>
           collection_time \<le> clock w (ticks w + 1 + 2 * m) - clock w (ticks w) \<and>
           (\<forall>k<m. clock w (ticks w + 1 + 2 * k) - clock w (ticks w) < collection_time) \<and>
           (\<exists>c. files ?w' ?p = Some c \<and> length c = 2 * m)"
      using m c' by (simp add: log_world_def)
    with res show ?thesis by blast
  qed
qed

theorem store_info_terminates_witness:
  "(4::real) \<le> clock demo_world (ticks demo_world + 1 + 2 * 2) - clock demo_world (ticks demo_world) \<and>
   (\<exists>w'. store_info_with accepting_table ''d'' (AStr ''BTCUSD'') 4 ''order_book'' [] demo_world =
       Some (Inr (), w') \<and> ticks w' = ticks demo_world + 2 * 2 + 2 \<and>
       (\<exists>c. files w' (output_file ''d'' ''order_book'') = Some c \<and> length c = 2 * 2))"
proof -
  have h: "(4::real) \<le> clock demo_world (ticks demo_world + 1 + 2 * 2) - clock demo_world (ticks demo_world)"
    by (simp add: demo_world_def)
  from demo_run obtain w0 where
    run: "store_info_with accepting_table ''d'' (AStr ''BTCUSD'') 4 ''order_book'' [] demo_world =
           Some (Inr (), w0)" and t: "ticks w0 = 6"
    by blast
  from store_info_terminates [OF h, of accepting_table "''d''" "AStr ''BTCUSD''" "''order_book''" "[]"]
  obtain r w' where
    run': "store_info_with accepting_table ''d'' (AStr ''BTCUSD'') 4 ''order_book'' [] demo_world = Some (r, w')"
    and fin: "r = Inr () \<longrightarrow>
        (\<exists>m\<le>2. ticks w' = ticks demo_world + 2 * m + 2 \<and>
           4 \<le> clock demo_world (ticks demo_world + 1 + 2 * m) - clock demo_world (ticks demo_world) \<and>
           (\<forall>k<m. clock demo_world (ticks demo_world + 1 + 2 * k) - clock demo_world (ticks demo_world) < 4) \<and>
           (\<exists>c. files w' (output_file ''d'' ''order_book'') = Some c \<and> length c = 2 * m))"
    by blast
  from run run' have eq: "r = Inr ()" "w' = w0" by simp_all
  with fin obtain m where m: "ticks w0 = ticks demo_world + 2 * m + 2"
    "\<exists>c. files w0 (output_file ''d'' ''order_book'') = Some c \<and> length c = 2 * m"
    by blast
  from m(1) t have "m = 2" by (simp add: demo_world_def)
  with m run h show ?thesis by (simp add: demo_world_def)
qed

lemma store_info_with_comes_back:
  assumes "collection_time \<le> clock w (ticks w + 1 + 2 * n) - clock w (ticks w)"
  shows "\<exists>r w'. store_info_with tbl save_dir pair collection_time info_type kwargs w = Some (r, w')"
proof (cases "dirname (output_file save_dir info_type) \<in> dirs w")
  case False
  then show ?thesis
    by (simp add: store_info_with_def open_w_def log_world_def Let_def)
next
  case True
  let ?p = "output_file save_dir info_type"
  let ?w2 = "(log_world (''Collecting '' @ info_type @ '' data for '' @ py_str pair) w)
     \<lparr>files := (files w)(?p \<mapsto> []), ticks := Suc (ticks w)\<rparr>"
  have "collection_time \<le> clock ?w2 (ticks ?w2 + 2 * n) - clock w (ticks w)"
    using assms by (simp add: log_world_def)
  from collect_loop_terminates [OF this, of tbl ?p pair info_type kwargs]
  obtain r w' where
    run: "collect_loop tbl ?p pair collection_time info_type kwargs (clock w (ticks w)) ?w2 =
      Some (r, w')"
    by blast
  show ?thesis
  proof (cases r)
    case (Inl e)
    with run True show ?thesis
      by (simp add: store_info_with_def open_w_def log_world_def time_time_def Let_def)
  next
    case (Inr u)
    with run True show ?thesis
      by (simp add: store_info_with_def open_w_def log_world_def time_time_def Let_def)
  qed
qed

lemma store_info_with_content:
  assumes "store_info_with tbl save_dir pair collection_time info_type kwargs w = Some (r, w')"
    and "dirname (output_file save_dir info_type) \<in> dirs w"
  shows "\<exists>recs. files w' (output_file save_dir info_type) = Some (concat (map record_line recs)) \<and>
           (\<forall>rec \<in> set recs. \<exists>k. ticks w < k \<and> k < ticks w' \<and> fst rec = clock w k)"
proof -
  from store_info_with_post [OF assms] obtain w2 where
    w2: "clock w2 = clock w" "ticks w2 = Suc (ticks w)"
      "files w2 = (files w)(output_file save_dir info_type \<mapsto> [])"
    and post: "loop_post tbl (output_file save_dir info_type) pair info_type kwargs w2 w'"
    by blast
  have "files w2 (output_file save_dir info_type) = Some []"
    using w2(3) by simp
  with post obtain recs where
    f: "files w' (output_file save_dir info_type) = Some ([] @ concat (map record_line recs))"
    and v: "\<forall>rec \<in> set recs. \<exists>k. ticks w2 \<le> k \<and> k < ticks w' \<and> fst rec = clock w2 k"
    unfolding loop_post_def by blast
  have "\<forall>rec \<in> set recs. \<exists>k. ticks w < k \<and> k < ticks w' \<and> fst rec = clock w k"
  proof
    fix rec assume "rec \<in> set recs"
    with v obtain k where "ticks w2 \<le> k" "k < ticks w'" "fst rec = clock w2 k"
      by blast
    with w2 have "ticks w < k \<and> k < ticks w' \<and> fst rec = clock w k" by simp
    then show "\<exists>k. ticks w < k \<and> k < ticks w' \<and> fst rec = clock w k" by blast
  qed
  with f show ?thesis by auto
qed

text \<open>
  C6. When the directory of the output file exists, opening the file leaves it empty
  whatever it held before, and the outcome of \<open>store_info\<close> and the whole world it leaves,
  the final content of the output file included, do not depend on what the file held
  before, or on whether it existed. When moreover one of the tests of the loop would read
  a time at least the duration after the start reading, the run comes back and the file
  then holds the records of this run and nothing else, each with a clock reading taken
  after the start of the run.
\<close>

theorem store_info_truncates:
  assumes "dirname (output_file save_dir info_type) \<in> dirs w"
  shows "files (snd (open_w (output_file save_dir info_type)
                   (w\<lparr>files := (files w)(output_file save_dir info_type := old)\<rparr>)))
           (output_file save_dir info_type) = Some [] \<and>
         store_info_with tbl save_dir pair collection_time info_type kwargs
           (w\<lparr>files := (files w)(output_file save_dir info_type := old)\<rparr>) =
         store_info_with tbl save_dir pair collection_time info_type kwargs w \<and>
         (collection_time \<le> clock w (ticks w + 1 + 2 * n) - clock w (ticks w) \<longrightarrow>
            (\<exists>r w' recs.
               store_info_with tbl save_dir pair collection_time info_type kwargs
                 (w\<lparr>files := (files w)(output_file save_dir info_type := old)\<rparr>) = Some (r, w') \<and>
               files w' (output_file save_dir info_type) = Some (concat (map record_line recs)) \<and>
               (\<forall>rec \<in> set recs. \<exists>k. ticks w < k \<and> k < ticks w' \<and> fst rec = clock w k)))"
proof -
  let ?old = "w\<lparr>files := (files w)(output_file save_dir info_type := old)\<rparr>"
  have opened: "files (snd (open_w (output_file save_dir info_type) ?old))
      (output_file save_dir info_type) = Some []"
    using assms by (simp add: open_w_def)
  have same: "store_info_with tbl save_dir pair collection_time info_type kwargs ?old =
      store_info_with tbl save_dir pair collection_time info_type kwargs w"
    using assms
    by (simp add: store_info_with_def open_w_def log_world_def time_time_def Let_def)
  have "\<exists>r w' recs.
      store_info_with tbl save_dir pair collection_time info_type kwargs ?old = Some (r, w') \<and>
      files w' (output_file save_dir info_type) = Some (concat (map record_line recs)) \<and>
      (\<forall>rec \<in> set recs. \<exists>k. ticks w < k \<and> k < ticks w' \<and> fst rec = clock w k)"
    if passes: "collection_time \<le> clock w (ticks w + 1 + 2 * n) - clock w (ticks w)"
  proof -
    from store_info_with_comes_back [OF passes] obtain r w' where
      run: "store_info_with tbl save_dir pair collection_time info_type kwargs w = Some (r, w')"
      by blast
    from store_info_with_content [OF run assms] obtain recs where
      "files w' (output_file save_dir info_type) = Some (concat (map record_line recs))"
      "\<forall>rec \<in> set recs. \<exists>k. ticks w < k \<and> k < ticks w' \<and> fst rec = clock w k"
      by blast
    with run same show ?thesis by auto
  qed
  with opened same show ?thesis by blast
qed

theorem store_info_truncates_witness:
  "dirname (output_file ''d'' ''order_book'') \<in> dirs demo_world \<and>
   (4::real) \<le> clock demo_world (ticks demo_world + 1 + 2 * 2) - clock demo_world (ticks demo_world) \<and>
   files (snd (open_w (output_file ''d'' ''order_book'')
       (demo_world\<lparr>files := (files demo_world)(output_file ''d'' ''order_book'' := Some [Raw ''stale''])\<rparr>)))
     (output_file ''d'' ''order_book'') = Some [] \<and>
   (\<exists>w'. store_info_with accepting_table ''d'' (AStr ''BTCUSD'') 4 ''order_book'' []
       (demo_world\<lparr>files := (files demo_world)(output_file ''d'' ''order_book'' := Some [Raw ''stale''])\<rparr>) =
       Some (Inr (), w') \<and>
     files w' (output_file ''d'' ''order_book'') =
       Some (concat (map record_line [(2, PList [PInt 7]), (4, PStr ''invalid symbol'')])))"
proof -
  have dir: "dirname (output_file ''d'' ''order_book'') \<in> dirs demo_world"
    by (simp add: dirname_demo demo_world_def)
  have passes: "(4::real) \<le> clock demo_world (ticks demo_world + 1 + 2 * 2) - clock demo_world (ticks demo_world)"
    by (simp add: demo_world_def)
  note th = store_info_truncates [OF dir, where old = "Some [Raw ''stale'']"
      and tbl = accepting_table and pair = "AStr ''BTCUSD''" and collection_time = 4
      and kwargs = "[]" and n = 2]
  note opened = th [THEN conjunct1]
  note same = th [THEN conjunct2, THEN conjunct1]
  from demo_run obtain w' where
    run: "store_info_with accepting_table ''d'' (AStr ''BTCUSD'') 4 ''order_book'' [] demo_world =
           Some (Inr (), w')"
    and content: "files w' (output_file ''d'' ''order_book'') =
           Some (concat (map record_line [(2, PList [PInt 7]), (4, PStr ''invalid symbol'')]))"
    by blast
  from same run have run': "store_info_with accepting_table ''d'' (AStr ''BTCUSD'') 4 ''order_book'' []
       (demo_world\<lparr>files := (files demo_world)(output_file ''d'' ''order_book'' := Some [Raw ''stale''])\<rparr>) =
       Some (Inr (), w')"
    by simp
  from run' content have "\<exists>w'. store_info_with accepting_table ''d'' (AStr ''BTCUSD'') 4 ''order_book'' []
       (demo_world\<lparr>files := (files demo_world)(output_file ''d'' ''order_book'' := Some [Raw ''stale''])\<rparr>) =
       Some (Inr (), w') \<and>
     files w' (output_file ''d'' ''order_book'') =
       Some (concat (map record_line [(2, PList [PInt 7]), (4, PStr ''invalid symbol'')]))"
    by blast
  with dir passes opened show ?thesis by blast
qed

section \<open>Properties of the command-line driver\<close>

lemma main_Inr:
  assumes "main a w = (Inr ts, w1)"
  shows "\<exists>p. args_pair a = Some p \<and>
     w1 = w\<lparr>dirs := insert (path_join BASE_SAVE_DIR [p, ''kraken'']) (dirs w)\<rparr> \<and>
     ts =
       (if args_ticker a \<noteq> 0
        then [new_thread (path_join BASE_SAVE_DIR [p, ''kraken'']) p (args_time a) ''ticker'' []] else [])
       @ (if args_order_book a \<noteq> 0
          then [new_thread (path_join BASE_SAVE_DIR [p, ''kraken'']) p (args_time a) ''order_book''
                  [(''depth'', AInt (args_depth a))]] else [])
       @ (if args_spreads a \<noteq> 0
          then [new_thread (path_join BASE_SAVE_DIR [p, ''kraken'']) p (args_time a) ''spread'' []] else [])
       @ (if args_trades a \<noteq> 0
          then [new_thread (path_join BASE_SAVE_DIR [p, ''kraken'']) p (args_time a) ''trades'' []] else [])
       @ (if args_candles a \<noteq> 0
          then [new_thread (path_join BASE_SAVE_DIR [p, ''kraken'']) p (args_time a) ''candles''
                  [(''granularity'', AInt (args_granularity a))]] else [])"
  using assms
  by (auto simp: main_def makedirs_def Let_def split: option.splits if_splits)

lemma main_thread_fields:
  assumes "main a w = (Inr ts, w1)" and "t \<in> set ts"
  shows "\<exists>p. args_pair a = Some p \<and> th_save_dir t = path_join BASE_SAVE_DIR [p, ''kraken''] \<and>
     th_pair t = AStr p \<and> th_collection_time t = real_of_int (args_time a) \<and>
     th_info_type t \<in> set info_types \<and> th_save_dir t \<in> dirs w1"
proof -
  from main_Inr [OF assms(1)] obtain p where p: "args_pair a = Some p"
    and w1: "w1 = w\<lparr>dirs := insert (path_join BASE_SAVE_DIR [p, ''kraken'']) (dirs w)\<rparr>"
    and ts: "ts =
       (if args_ticker a \<noteq> 0
        then [new_thread (path_join BASE_SAVE_DIR [p, ''kraken'']) p (args_time a) ''ticker'' []] else [])
       @ (if args_order_book a \<noteq> 0
          then [new_thread (path_join BASE_SAVE_DIR [p, ''kraken'']) p (args_time a) ''order_book''
                  [(''depth'', AInt (args_depth a))]] else [])
       @ (if args_spreads a \<noteq> 0
          then [new_thread (path_join BASE_SAVE_DIR [p, ''kraken'']) p (args_time a) ''spread'' []] else [])
       @ (if args_trades a \<noteq> 0
          then [new_thread (path_join BASE_SAVE_DIR [p, ''kraken'']) p (args_time a) ''trades'' []] else [])
       @ (if args_candles a \<noteq> 0
          then [new_thread (path_join BASE_SAVE_DIR [p, ''kraken'']) p (args_time a) ''candles''
                  [(''granularity'', AInt (args_granularity a))]] else [])"
    by blast
  from assms(2) have "th_save_dir t = path_join BASE_SAVE_DIR [p, ''kraken''] \<and>
     th_pair t = AStr p \<and> th_collection_time t = real_of_int (args_time a) \<and>
     th_info_type t \<in> set info_types"
    unfolding ts by (auto simp: new_thread_def info_types_def split: if_splits)
  with p w1 show ?thesis by simp
qed

lemma main_info_types:
  assumes "main a w = (Inr ts, w1)"
  shows "map th_info_type ts =
       (if args_ticker a \<noteq> 0 then [''ticker''] else [])
       @ (if args_order_book a \<noteq> 0 then [''order_book''] else [])
       @ (if args_spreads a \<noteq> 0 then [''spread''] else [])
       @ (if args_trades a \<noteq> 0 then [''trades''] else [])
       @ (if args_candles a \<noteq> 0 then [''candles''] else [])"
proof -
  from main_Inr [OF assms] obtain p where ts: "ts =
       (if args_ticker a \<noteq> 0
        then [new_thread (path_join BASE_SAVE_DIR [p, ''kraken'']) p (args_time a) ''ticker'' []] else [])
       @ (if args_order_book a \<noteq> 0
          then [new_thread (path_join BASE_SAVE_DIR [p, ''kraken'']) p (args_time a) ''order_book''
                  [(''depth'', AInt (args_depth a))]] else [])
       @ (if args_spreads a \<noteq> 0
          then [new_thread (path_join BASE_SAVE_DIR [p, ''kraken'']) p (args_time a) ''spread'' []] else [])
       @ (if args_trades a \<noteq> 0
          then [new_thread (path_join BASE_SAVE_DIR [p, ''kraken'']) p (args_time a) ''trades'' []] else [])
       @ (if args_candles a \<noteq> 0
          then [new_thread (path_join BASE_SAVE_DIR [p, ''kraken'']) p (args_time a) ''candles''
                  [(''granularity'', AInt (args_granularity a))]] else [])"
    by blast
  show ?thesis unfolding ts by (simp add: new_thread_def)
qed

lemma no_slash_info_types: "it \<in> set info_types \<Longrightarrow> CHR ''/'' \<notin> set it"
  by (auto simp: info_types_def)

lemma main_thread_dir:
  assumes "main a w = (Inr ts, w1)" and "t \<in> set ts" and "dirs w1 \<subseteq> dirs w2"
  shows "dirname (output_file (th_save_dir t) (th_info_type t)) \<in> dirs w2"
proof -
  from main_thread_fields [OF assms(1,2)] obtain p where
    sd: "th_save_dir t = path_join BASE_SAVE_DIR [p, ''kraken'']"
    and it: "th_info_type t \<in> set info_types" and d: "th_save_dir t \<in> dirs w1"
    by blast
  from join_kraken [of p] sd obtain x where x: "th_save_dir t = x @ ''kraken''" by auto
  have "dirname (output_file (th_save_dir t) (th_info_type t)) = th_save_dir t"
    unfolding x by (rule dirname_output_file) (rule no_slash_info_types [OF it])
  with d assms(3) show ?thesis by auto
qed

lemma main_thread_files:
  assumes "main a w = (Inr ts, w1)" and "t \<in> set ts" and "dirs w1 \<subseteq> dirs w2"
  shows "\<exists>r w3. thread_run t w2 = Some (r, w3) \<and>
     files w3 = (files w2)(output_file (th_save_dir t) (th_info_type t) \<mapsto> [])"
proof -
  from main_thread_fields [OF assms(1,2)] obtain p where
    sd: "th_save_dir t = path_join BASE_SAVE_DIR [p, ''kraken'']"
    and it: "th_info_type t \<in> set info_types" and d: "th_save_dir t \<in> dirs w1"
    by blast
  from join_kraken [of p] sd obtain x where x: "th_save_dir t = x @ ''kraken''" by auto
  have "dirname (output_file (th_save_dir t) (th_info_type t)) = th_save_dir t"
    unfolding x by (rule dirname_output_file) (rule no_slash_info_types [OF it])
  with d assms(3) have "dirname (output_file (th_save_dir t) (th_info_type t)) \<in> dirs w2"
    by auto
  from store_info_files [OF this] show ?thesis
    unfolding thread_run_def by blast
qed

lemma demo_main:
  "main demo_args demo_world =
     (Inr [new_thread ''../../datasets/BTCUSD/kraken'' ''BTCUSD'' 5 ''ticker'' [],
           new_thread ''../../datasets/BTCUSD/kraken'' ''BTCUSD'' 5 ''order_book'' [(''depth'', AInt 3)],
           new_thread ''../../datasets/BTCUSD/kraken'' ''BTCUSD'' 5 ''spread'' [],
           new_thread ''../../datasets/BTCUSD/kraken'' ''BTCUSD'' 5 ''candles''
             [(''granularity'', AInt 60)]],
      demo_world\<lparr>dirs := insert ''../../datasets/BTCUSD/kraken'' (dirs demo_world)\<rparr>)"
  by (simp add: main_def demo_args_def demo_world_def makedirs_def path_join_def join_step_def
      BASE_SAVE_DIR_def Let_def)

text \<open>
  C7, as amended. Let \<open>main\<close> start its threads for a pair that is not empty and neither
  begins nor ends with a slash. Then the directory \<^verbatim>\<open>../../datasets/{pair}/kraken\<close> exists
  afterwards, and every started thread writes the file
  \<^verbatim>\<open>../../datasets/{pair}/kraken/{data_type}.txt\<close> of its own data type, in that directory:
  run from any later world that still has the directory, the thread comes back and the
  files then are the files before and this one.
\<close>

theorem output_path_regular_pair:
  assumes "main a w = (Inr ts, w1)" and "args_pair a = Some p"
    and "p \<noteq> []" and "hd p \<noteq> CHR ''/''" and "last p \<noteq> CHR ''/''"
  shows "BASE_SAVE_DIR @ p @ ''/kraken'' \<in> dirs w1 \<and>
         (\<forall>t \<in> set ts.
            output_file (th_save_dir t) (th_info_type t) = spec_output_path p (th_info_type t) \<and>
            dirname (output_file (th_save_dir t) (th_info_type t)) = BASE_SAVE_DIR @ p @ ''/kraken'' \<and>
            (\<forall>w2. dirs w1 \<subseteq> dirs w2 \<longrightarrow>
               (\<exists>r w3. thread_run t w2 = Some (r, w3) \<and>
                  dom (files w3) = insert (spec_output_path p (th_info_type t)) (dom (files w2)))))"
proof -
  have sd: "path_join BASE_SAVE_DIR [p, ''kraken''] = BASE_SAVE_DIR @ p @ ''/kraken''"
    using assms(3-5) by (rule join_regular)
  from main_Inr [OF assms(1)] assms(2) sd
  have "w1 = w\<lparr>dirs := insert (BASE_SAVE_DIR @ p @ ''/kraken'') (dirs w)\<rparr>" by auto
  then have d: "BASE_SAVE_DIR @ p @ ''/kraken'' \<in> dirs w1" by simp
  have "output_file (th_save_dir t) (th_info_type t) = spec_output_path p (th_info_type t) \<and>
        dirname (output_file (th_save_dir t) (th_info_type t)) = BASE_SAVE_DIR @ p @ ''/kraken'' \<and>
        (\<forall>w2. dirs w1 \<subseteq> dirs w2 \<longrightarrow>
           (\<exists>r w3. thread_run t w2 = Some (r, w3) \<and>
              dom (files w3) = insert (spec_output_path p (th_info_type t)) (dom (files w2))))"
    if t: "t \<in> set ts" for t
  proof -
    from main_thread_fields [OF assms(1) t] assms(2) sd
    have f: "th_save_dir t = (BASE_SAVE_DIR @ p @ ''/'') @ ''kraken''"
      and it: "th_info_type t \<in> set info_types"
      by auto
    have ns: "CHR ''/'' \<notin> set (th_info_type t)" by (rule no_slash_info_types [OF it])
    have o: "output_file (th_save_dir t) (th_info_type t) = spec_output_path p (th_info_type t)"
      unfolding f output_file_kraken [OF ns] by (simp add: spec_output_path_def)
    have dn: "dirname (output_file (th_save_dir t) (th_info_type t)) = BASE_SAVE_DIR @ p @ ''/kraken''"
      unfolding f dirname_output_file [OF ns] by simp
    have "\<exists>r w3. thread_run t w2 = Some (r, w3) \<and>
              dom (files w3) = insert (spec_output_path p (th_info_type t)) (dom (files w2))"
      if "dirs w1 \<subseteq> dirs w2" for w2
    proof -
      from main_thread_files [OF assms(1) t that] obtain r w3 where
        "thread_run t w2 = Some (r, w3)"
        "files w3 = (files w2)(output_file (th_save_dir t) (th_info_type t) \<mapsto> [])"
        by blast
      then show ?thesis using o by auto
    qed
    with o dn show ?thesis by blast
  qed
  with d show ?thesis by blast
qed

theorem output_path_regular_pair_witness:
  "args_pair demo_args = Some ''BTCUSD'' \<and>
   BASE_SAVE_DIR @ ''BTCUSD'' @ ''/kraken'' \<in> dirs (snd (main demo_args demo_world)) \<and>
   output_file ''../../datasets/BTCUSD/kraken'' ''ticker'' = ''../../datasets/BTCUSD/kraken/ticker.txt'' \<and>
   dirname (output_file ''../../datasets/BTCUSD/kraken'' ''ticker'') = ''../../datasets/BTCUSD/kraken''"
proof -
  let ?ts = "[new_thread ''../../datasets/BTCUSD/kraken'' ''BTCUSD'' 5 ''ticker'' [],
           new_thread ''../../datasets/BTCUSD/kraken'' ''BTCUSD'' 5 ''order_book'' [(''depth'', AInt 3)],
           new_thread ''../../datasets/BTCUSD/kraken'' ''BTCUSD'' 5 ''spread'' [],
           new_thread ''../../datasets/BTCUSD/kraken'' ''BTCUSD'' 5 ''candles''
             [(''granularity'', AInt 60)]]"
  have p: "args_pair demo_args = Some ''BTCUSD''" by (simp add: demo_args_def)
  have r: "''BTCUSD'' \<noteq> []" "hd ''BTCUSD'' \<noteq> CHR ''/''" "last ''BTCUSD'' \<noteq> CHR ''/''"
    by simp_all
  note th = output_path_regular_pair [OF demo_main p r]
  have m: "snd (main demo_args demo_world) =
      demo_world\<lparr>dirs := insert ''../../datasets/BTCUSD/kraken'' (dirs demo_world)\<rparr>"
    by (simp add: demo_main)
  have d: "BASE_SAVE_DIR @ ''BTCUSD'' @ ''/kraken'' \<in> dirs (snd (main demo_args demo_world))"
    unfolding m using th by (rule conjunct1)
  have t: "new_thread ''../../datasets/BTCUSD/kraken'' ''BTCUSD'' 5 ''ticker'' [] \<in> set ?ts"
    by simp
  have sel: "th_save_dir (new_thread ''../../datasets/BTCUSD/kraken'' ''BTCUSD'' 5 ''ticker'' []) =
      ''../../datasets/BTCUSD/kraken''"
    "th_info_type (new_thread ''../../datasets/BTCUSD/kraken'' ''BTCUSD'' 5 ''ticker'' []) = ''ticker''"
    by (simp_all add: new_thread_def)
  note c = th [THEN conjunct2, rule_format, OF t, unfolded sel]
  have o: "output_file ''../../datasets/BTCUSD/kraken'' ''ticker'' = spec_output_path ''BTCUSD'' ''ticker''"
    using c by (rule conjunct1)
  have dn: "dirname (output_file ''../../datasets/BTCUSD/kraken'' ''ticker'') =
      BASE_SAVE_DIR @ ''BTCUSD'' @ ''/kraken''"
    using c [THEN conjunct2] by (rule conjunct1)
  have "spec_output_path ''BTCUSD'' ''ticker'' = ''../../datasets/BTCUSD/kraken/ticker.txt''"
    by (simp add: spec_output_path_def BASE_SAVE_DIR_def)
  with o have o': "output_file ''../../datasets/BTCUSD/kraken'' ''ticker'' =
      ''../../datasets/BTCUSD/kraken/ticker.txt''" by simp
  have "BASE_SAVE_DIR @ ''BTCUSD'' @ ''/kraken'' = ''../../datasets/BTCUSD/kraken''"
    by (simp add: BASE_SAVE_DIR_def)
  with dn have dn': "dirname (output_file ''../../datasets/BTCUSD/kraken'' ''ticker'') =
      ''../../datasets/BTCUSD/kraken''" by simp
  from p d o' dn' show ?thesis by blast
qed

text \<open>
  C7 as stated fails for a pair that begins with a slash: \<^verbatim>\<open>os.path.join\<close> discards the
  base directory, and with the pair \<^verbatim>\<open>/tmp\<close> the ticker thread gets the file
  \<^verbatim>\<open>/tmp/kraken/ticker.txt\<close>, which is not under \<^verbatim>\<open>../../datasets/\<close>.
\<close>

theorem output_path_absolute_pair:
  "fst (main (demo_args\<lparr>args_pair := Some ''/tmp''\<rparr>) demo_world) =
     Inr [new_thread ''/tmp/kraken'' ''/tmp'' 5 ''ticker'' [],
          new_thread ''/tmp/kraken'' ''/tmp'' 5 ''order_book'' [(''depth'', AInt 3)],
          new_thread ''/tmp/kraken'' ''/tmp'' 5 ''spread'' [],
          new_thread ''/tmp/kraken'' ''/tmp'' 5 ''candles'' [(''granularity'', AInt 60)]] \<and>
   output_file ''/tmp/kraken'' ''ticker'' = ''/tmp/kraken/ticker.txt'' \<and>
   spec_output_path ''/tmp'' ''ticker'' = ''../../datasets//tmp/kraken/ticker.txt'' \<and>
   output_file ''/tmp/kraken'' ''ticker'' \<noteq> spec_output_path ''/tmp'' ''ticker'' \<and>
   take (length BASE_SAVE_DIR) (output_file ''/tmp/kraken'' ''ticker'') \<noteq> BASE_SAVE_DIR"
  by (simp add: main_def demo_args_def demo_world_def makedirs_def path_join_def join_step_def
      BASE_SAVE_DIR_def Let_def output_file_def spec_output_path_def)

text \<open>
  C8. When \<open>main\<close> starts its threads, it starts exactly one for each data type whose flag
  is not zero, in the order ticker, order book, spread, trades, candles, and returns them
  without having run any: it has read no clock, sent no request and written no file, only
  created the directory. The files of the threads are pairwise different, each named
  after the thread's data type in the derived directory. A thread run from any later world
  that still has the directory comes back, has its own file created and leaves every other
  file as it was.
\<close>

theorem main_one_thread_per_type:
  assumes "main a w = (Inr ts, w1)"
  shows "map th_info_type ts =
           (if args_ticker a \<noteq> 0 then [''ticker''] else [])
           @ (if args_order_book a \<noteq> 0 then [''order_book''] else [])
           @ (if args_spreads a \<noteq> 0 then [''spread''] else [])
           @ (if args_trades a \<noteq> 0 then [''trades''] else [])
           @ (if args_candles a \<noteq> 0 then [''candles''] else []) \<and>
         distinct (map (\<lambda>t. output_file (th_save_dir t) (th_info_type t)) ts) \<and>
         files w1 = files w \<and> ticks w1 = ticks w \<and> ext w1 = ext w \<and>
         (\<forall>t \<in> set ts.
            output_file (th_save_dir t) (th_info_type t) =
              th_save_dir t @ ''/'' @ th_info_type t @ ''.txt'' \<and>
            th_save_dir t \<in> dirs w1 \<and>
            (\<forall>w2. dirs w1 \<subseteq> dirs w2 \<longrightarrow>
               (\<exists>r w3. thread_run t w2 = Some (r, w3) \<and>
                  files w3 (output_file (th_save_dir t) (th_info_type t)) \<noteq> None \<and>
                  (\<forall>q. q \<noteq> output_file (th_save_dir t) (th_info_type t) \<longrightarrow>
                     files w3 q = files w2 q))))"
proof -
  note types = main_info_types [OF assms]
  from main_Inr [OF assms] obtain p where ap: "args_pair a = Some p"
    and w1: "w1 = w\<lparr>dirs := insert (path_join BASE_SAVE_DIR [p, ''kraken'']) (dirs w)\<rparr>"
    by blast
  from join_kraken [of p] obtain x where x: "path_join BASE_SAVE_DIR [p, ''kraken''] = x @ ''kraken''"
    by blast
  have each: "output_file (th_save_dir t) (th_info_type t) =
        th_save_dir t @ ''/'' @ th_info_type t @ ''.txt'' \<and> th_save_dir t = x @ ''kraken'' \<and>
        th_save_dir t \<in> dirs w1"
    if t: "t \<in> set ts" for t
  proof -
    from main_thread_fields [OF assms t] ap w1 x
    have f: "th_save_dir t = x @ ''kraken''" and it: "th_info_type t \<in> set info_types"
      and d: "th_save_dir t \<in> dirs w1"
      by auto
    from output_file_kraken [OF no_slash_info_types [OF it], of x] f d show ?thesis by simp
  qed
  have own: "output_file (th_save_dir t) (th_info_type t) =
      (x @ ''kraken'') @ ''/'' @ th_info_type t @ ''.txt''"
    if t: "t \<in> set ts" for t
  proof -
    from each [OF t] have a: "output_file (th_save_dir t) (th_info_type t) =
        th_save_dir t @ ''/'' @ th_info_type t @ ''.txt''"
      and b: "th_save_dir t = x @ ''kraken''"
      by blast+
    from a b show ?thesis by simp
  qed
  have paths: "map (\<lambda>t. output_file (th_save_dir t) (th_info_type t)) ts =
      map (\<lambda>it. (x @ ''kraken'') @ ''/'' @ it @ ''.txt'') (map th_info_type ts)"
    using own by (simp add: comp_def)
  have "distinct (map th_info_type ts)"
    unfolding types by simp
  moreover have "inj_on (\<lambda>it. (x @ ''kraken'') @ ''/'' @ it @ ''.txt'') (set (map th_info_type ts))"
    by (rule inj_onI) simp
  ultimately have dist: "distinct (map (\<lambda>t. output_file (th_save_dir t) (th_info_type t)) ts)"
    unfolding paths by (simp only: distinct_map)
  have frame: "\<exists>r w3. thread_run t w2 = Some (r, w3) \<and>
        files w3 (output_file (th_save_dir t) (th_info_type t)) \<noteq> None \<and>
        (\<forall>q. q \<noteq> output_file (th_save_dir t) (th_info_type t) \<longrightarrow> files w3 q = files w2 q)"
    if t: "t \<in> set ts" and sub: "dirs w1 \<subseteq> dirs w2" for t w2
  proof -
    from main_thread_files [OF assms t sub] obtain r w3 where
      "thread_run t w2 = Some (r, w3)"
      "files w3 = (files w2)(output_file (th_save_dir t) (th_info_type t) \<mapsto> [])"
      by blast
    then show ?thesis by auto
  qed
  from w1 have "files w1 = files w \<and> ticks w1 = ticks w \<and> ext w1 = ext w" by simp
  with types dist each frame show ?thesis by blast
qed

theorem main_one_thread_per_type_witness:
  "\<exists>ts w1. main demo_args demo_world = (Inr ts, w1) \<and>
     map th_info_type ts = [''ticker'', ''order_book'', ''spread'', ''candles''] \<and>
     distinct (map (\<lambda>t. output_file (th_save_dir t) (th_info_type t)) ts) \<and>
     files w1 = files demo_world"
proof -
  note th = main_one_thread_per_type [OF demo_main]
  have a: "map th_info_type
      [new_thread ''../../datasets/BTCUSD/kraken'' ''BTCUSD'' 5 ''ticker'' [],
       new_thread ''../../datasets/BTCUSD/kraken'' ''BTCUSD'' 5 ''order_book'' [(''depth'', AInt 3)],
       new_thread ''../../datasets/BTCUSD/kraken'' ''BTCUSD'' 5 ''spread'' [],
       new_thread ''../../datasets/BTCUSD/kraken'' ''BTCUSD'' 5 ''candles''
         [(''granularity'', AInt 60)]] = [''ticker'', ''order_book'', ''spread'', ''candles'']"
    using th [THEN conjunct1] by (simp add: demo_args_def)
  note b = th [THEN conjunct2, THEN conjunct1]
  note c = th [THEN conjunct2, THEN conjunct2, THEN conjunct1]
  show ?thesis by (intro exI conjI) (rule demo_main, rule a, rule b, rule c)
qed

text \<open>
  C10. \<open>FN_MAPPING\<close> has no entry for \<^verbatim>\<open>spread\<close> or \<^verbatim>\<open>candles\<close>. When \<open>main\<close> starts its
  threads and the flag \<^verbatim>\<open>--spreads\<close> (or \<^verbatim>\<open>--candles\<close>) is not zero, a thread with the data
  type \<^verbatim>\<open>spread\<close> (or \<^verbatim>\<open>candles\<close>) is among them. Such a thread, run from any later world
  that still has the directory and in which the first test of the loop succeeds, raises
  KeyError for its data type in the first turn of the loop, after three readings of the
  clock, and leaves its output file created and empty and every other file as it was.
\<close>

theorem spread_candles_key_error:
  assumes "main a w = (Inr ts, w1)"
  shows "FN_MAPPING ''spread'' = None \<and> FN_MAPPING ''candles'' = None \<and>
         (args_spreads a \<noteq> 0 \<longrightarrow> (\<exists>t \<in> set ts. th_info_type t = ''spread'')) \<and>
         (args_candles a \<noteq> 0 \<longrightarrow> (\<exists>t \<in> set ts. th_info_type t = ''candles'')) \<and>
         (\<forall>t \<in> set ts. th_info_type t = ''spread'' \<or> th_info_type t = ''candles'' \<longrightarrow>
            (\<forall>w2. dirs w1 \<subseteq> dirs w2 \<longrightarrow>
               clock w2 (Suc (ticks w2)) - clock w2 (ticks w2) < th_collection_time t \<longrightarrow>
               (\<exists>w3. thread_run t w2 = Some (Inl (KeyError (th_info_type t)), w3) \<and>
                  ticks w3 = ticks w2 + 3 \<and>
                  files w3 = (files w2)(output_file (th_save_dir t) (th_info_type t) \<mapsto> []))))"
proof -
  have none: "FN_MAPPING ''spread'' = None" "FN_MAPPING ''candles'' = None"
    by (simp_all add: FN_MAPPING_def)
  note types = main_info_types [OF assms]
  have s: "\<exists>t \<in> set ts. th_info_type t = ''spread''" if "args_spreads a \<noteq> 0"
  proof -
    from that have "''spread'' \<in> set (map th_info_type ts)" unfolding types by simp
    then show ?thesis by auto
  qed
  have c: "\<exists>t \<in> set ts. th_info_type t = ''candles''" if "args_candles a \<noteq> 0"
  proof -
    from that have "''candles'' \<in> set (map th_info_type ts)" unfolding types by simp
    then show ?thesis by auto
  qed
  have run: "\<exists>w3. thread_run t w2 = Some (Inl (KeyError (th_info_type t)), w3) \<and>
        ticks w3 = ticks w2 + 3 \<and>
        files w3 = (files w2)(output_file (th_save_dir t) (th_info_type t) \<mapsto> [])"
    if t: "t \<in> set ts" and it: "th_info_type t = ''spread'' \<or> th_info_type t = ''candles''"
      and sub: "dirs w1 \<subseteq> dirs w2"
      and test: "clock w2 (Suc (ticks w2)) - clock w2 (ticks w2) < th_collection_time t"
    for t w2
  proof -
    from it none have "FN_MAPPING (th_info_type t) = None" by auto
    then have e: "\<And>r. call_endpoint FN_MAPPING (th_info_type t) (th_pair t) (th_kwargs t) r =
        (Inl (KeyError (th_info_type t)), r)"
      by (simp add: call_endpoint_missing)
    note d = main_thread_dir [OF assms t sub]
    from store_info_with_raise [OF d test e] show ?thesis
      by (simp add: thread_run_def store_info_def)
  qed
  from none s c run show ?thesis by blast
qed

theorem spread_candles_key_error_witness:
  "\<exists>ts w1 w3. main demo_args demo_world = (Inr ts, w1) \<and>
     new_thread ''../../datasets/BTCUSD/kraken'' ''BTCUSD'' 5 ''spread'' [] \<in> set ts \<and>
     clock w1 (Suc (ticks w1)) - clock w1 (ticks w1) < 5 \<and>
     thread_run (new_thread ''../../datasets/BTCUSD/kraken'' ''BTCUSD'' 5 ''spread'' []) w1 =
       Some (Inl (KeyError ''spread''), w3) \<and>
     ticks w3 = ticks w1 + 3 \<and>
     files w3 = (files w1)(''../../datasets/BTCUSD/kraken/spread.txt'' \<mapsto> [])"
proof -
  let ?t = "new_thread ''../../datasets/BTCUSD/kraken'' ''BTCUSD'' 5 ''spread'' []"
  let ?ts = "[new_thread ''../../datasets/BTCUSD/kraken'' ''BTCUSD'' 5 ''ticker'' [],
       new_thread ''../../datasets/BTCUSD/kraken'' ''BTCUSD'' 5 ''order_book'' [(''depth'', AInt 3)],
       ?t,
       new_thread ''../../datasets/BTCUSD/kraken'' ''BTCUSD'' 5 ''candles''
         [(''granularity'', AInt 60)]]"
  let ?w1 = "demo_world\<lparr>dirs := insert ''../../datasets/BTCUSD/kraken'' (dirs demo_world)\<rparr>"
  note th = spread_candles_key_error [OF demo_main]
  have t: "?t \<in> set ?ts" by simp
  have it: "th_info_type ?t = ''spread'' \<or> th_info_type ?t = ''candles''"
    by (simp add: new_thread_def)
  have test: "clock ?w1 (Suc (ticks ?w1)) - clock ?w1 (ticks ?w1) < th_collection_time ?t"
    by (simp add: demo_world_def new_thread_def)
  have sub: "dirs ?w1 \<subseteq> dirs ?w1" by simp
  from th [THEN conjunct2, THEN conjunct2, THEN conjunct2, THEN conjunct2, rule_format,
      OF t it sub test]
  obtain w3 where r: "thread_run ?t ?w1 = Some (Inl (KeyError (th_info_type ?t)), w3)"
    "ticks w3 = ticks ?w1 + 3"
    "files w3 = (files ?w1)(output_file (th_save_dir ?t) (th_info_type ?t) \<mapsto> [])"
    by blast
  have o: "output_file (th_save_dir ?t) ''spread'' = ''../../datasets/BTCUSD/kraken/spread.txt''"
    by (simp add: new_thread_def output_file_def path_join_def join_step_def)
  have i: "th_info_type ?t = ''spread''" by (simp add: new_thread_def)
  have test': "clock ?w1 (Suc (ticks ?w1)) - clock ?w1 (ticks ?w1) < 5"
    by (simp add: demo_world_def)
  note r' = r [unfolded i, unfolded o]
  show ?thesis
    by (intro exI conjI) (rule demo_main, rule t, rule test', rule r'(1), rule r'(2), rule r'(3))
qed

end
